theory Spec2Isabelle
  imports Main "HOL-Library.AList"
begin

section \<open>JavaScript values\<close>

text \<open>
  A JavaScript \<open>number\<close> that stands for a process id: what \<open>parseInt\<close> returns on a file
  name, and what is printed into a file name. \<open>NaN\<close> is what \<open>parseInt\<close> gives on a name
  without digits; every other one is an integer, taken exactly (JavaScript is exact
  below \<open>2^53\<close>, which covers every process id).
\<close>

datatype number = NaN | Number int

text \<open>
  The values a configuration object holds. An object is the list of its enumerable
  properties in the order \<open>for (const key in args)\<close> visits them; an array is the object
  of its indices.

  The module never computes with a number of the configuration: it asks for its
  \<open>typeof\<close>, prints it in a template literal, compares an exit code with \<open>0\<close>, and copies
  it. What a template literal prints for a number is fixed by the language (\<open>1\<close> for 1,
  \<open>0.5\<close> for one half, \<open>1e+21\<close> for \<open>10^21\<close>, \<open>NaN\<close>, \<open>Infinity\<close>), so \<open>JNum printed\<close> is the
  number that prints as \<open>printed\<close>; both zeros print as \<open>0\<close> and both are \<open>=== 0\<close>.
  Functions, symbols and big integers are not values of a parsed configuration.
\<close>

datatype jvalue =
    JUndefined
  | JNull
  | JBool bool
  | JNum string
  | JStr string
  | JObj "(string \<times> jvalue) list"

text \<open>\<open>typeof value\<close>: \<open>null\<close> is an \<open>"object"\<close> in JavaScript.\<close>

fun typeof :: "jvalue \<Rightarrow> string" where
  "typeof JUndefined = ''undefined''"
| "typeof JNull = ''object''"
| "typeof (JBool b) = ''boolean''"
| "typeof (JNum n) = ''number''"
| "typeof (JStr s) = ''string''"
| "typeof (JObj kvs) = ''object''"

text \<open>The decimal digit \<open>d\<close>, for \<open>d\<close> below ten; \<open>digits\<close> asks for no other.\<close>

definition digit_char :: "nat \<Rightarrow> char" where
  "digit_char d = ''0123456789'' ! d"

function digits :: "nat \<Rightarrow> string" where
  "digits n = (if n < 10 then [digit_char n] else digits (n div 10) @ [digit_char (n mod 10)])"
  by pat_completeness auto
termination
  by (relation "measure id") auto

declare digits.simps [simp del]

text \<open>\<open>`${pid}`\<close> for a process id: decimal digits, a minus sign, or \<open>NaN\<close>.\<close>

fun Number_toString :: "number \<Rightarrow> string" where
  "Number_toString NaN = ''NaN''"
| "Number_toString (Number i) = (if i < 0 then ''-'' @ digits (nat (- i)) else digits (nat i))"

text \<open>\<open>`${value}`\<close>: the string a template literal makes of a value.\<close>

fun ToString :: "jvalue \<Rightarrow> string" where
  "ToString JUndefined = ''undefined''"
| "ToString JNull = ''null''"
| "ToString (JBool b) = (if b then ''true'' else ''false'')"
| "ToString (JNum printed) = printed"
| "ToString (JStr s) = s"
| "ToString (JObj kvs) = ''[object Object]''"

section \<open>createFlatChildArgs\<close>

text \<open>
  \<open>flatten(namespace, args)\<close> mutates the array \<open>flattenedArgs\<close> of the enclosing
  function; here the array is passed in and returned. \<open>flatten_keys\<close> is the
  \<open>for (const key in args)\<close> loop over the properties still to visit. A \<open>for ... in\<close>
  over \<open>null\<close> visits nothing, and so does one over any value without enumerable
  properties. Only a value whose \<open>typeof\<close> is \<open>"object"\<close> ever reaches \<open>flatten\<close>: the
  recursive call is guarded by it, and the parameter of \<open>createFlatChildArgs\<close> has the
  type \<open>object\<close>. The array holds the flavor value as it is and the flags as strings.
\<close>

fun flatten :: "string option \<Rightarrow> jvalue \<Rightarrow> jvalue list \<Rightarrow> jvalue list"
  and flatten_keys :: "string \<Rightarrow> (string \<times> jvalue) list \<Rightarrow> jvalue list \<Rightarrow> jvalue list" where
  "flatten namespace (JObj kvs) flattenedArgs =
     flatten_keys (case namespace of None \<Rightarrow> '''' | Some ns \<Rightarrow> ns @ ''.'') kvs flattenedArgs"
| "flatten namespace JUndefined flattenedArgs = flattenedArgs"
| "flatten namespace JNull flattenedArgs = flattenedArgs"
| "flatten namespace (JBool b) flattenedArgs = flattenedArgs"
| "flatten namespace (JNum n) flattenedArgs = flattenedArgs"
| "flatten namespace (JStr s) flattenedArgs = flattenedArgs"
| "flatten_keys prefix [] flattenedArgs = flattenedArgs"
| "flatten_keys prefix ((key, val) # rest) flattenedArgs =
     flatten_keys prefix rest
       (if key = ''flavor'' then val # flattenedArgs
        else if key \<noteq> ''action'' then
          (if typeof val = ''object'' then flatten (Some (prefix @ key)) val flattenedArgs
           else flattenedArgs @ [JStr (''--'' @ prefix @ key @ ''='' @ ToString val)])
        else flattenedArgs)"

definition createFlatChildArgs :: "jvalue \<Rightarrow> jvalue list" where
  "createFlatChildArgs args = flatten None args []"

section \<open>parseInt\<close>

text \<open>
  \<open>parseInt(string)\<close> with no radix: leading white space is skipped, then an optional
  sign, then an optional \<open>0x\<close> that selects radix 16, then the longest run of digits of
  the radix; no digit gives \<open>NaN\<close>. A \<open>string\<close> here is a list of bytes, so the white
  space is the ASCII part of JavaScript's (TAB, LF, VT, FF, CR, SP).
\<close>

definition isWhiteSpace :: "char \<Rightarrow> bool" where
  "isWhiteSpace c \<longleftrightarrow> (let k = (of_char c :: nat) in (9 \<le> k \<and> k \<le> 13) \<or> k = 32)"

text \<open>The value of a character as a digit; 36 for a character that is no digit of any radix.\<close>

definition digit_value :: "char \<Rightarrow> nat" where
  "digit_value c =
     (let k = (of_char c :: nat) in
      if 48 \<le> k \<and> k \<le> 57 then k - 48
      else if 97 \<le> k \<and> k \<le> 122 then k - 87
      else if 65 \<le> k \<and> k \<le> 90 then k - 55
      else 36)"

definition parseInt :: "string \<Rightarrow> number" where
  "parseInt string =
     (let S = dropWhile isWhiteSpace string;
          sign = (if take 1 S = ''-'' then - 1 else (1 :: int));
          S1 = (if take 1 S = ''-'' \<or> take 1 S = ''+'' then drop 1 S else S);
          stripPrefix = (take 2 S1 = ''0x'' \<or> take 2 S1 = ''0X'');
          R = (if stripPrefix then 16 else (10 :: nat));
          S2 = (if stripPrefix then drop 2 S1 else S1);
          Z = takeWhile (\<lambda>c. digit_value c < R) S2
      in if Z = [] then NaN
         else Number (sign * int (foldl (\<lambda>a c. a * R + digit_value c) 0 Z)))"

section \<open>The registry, the process table and signals\<close>

text \<open>
  \<open>DetachedInstance\<close>, as the type of the source declares it. \<open>host\<close>, \<open>port\<close> and
  \<open>flavor\<close> are copied from the configuration object as they are and nothing here
  inspects them, so they stay values of the configuration.
\<close>

record DetachedInstance =
  instanceName :: string
  pid :: int
  startTime :: int
  host :: jvalue
  port :: jvalue
  flavor :: jvalue
  cmd :: string
  version :: string

text \<open>
  What a registry file holds, seen through the \<open>try\<close> block that reads it:
  \<open>Json instance\<close> are bytes that \<open>JSON.parse\<close> turns into \<open>instance\<close> (what
  \<open>JSON.stringify(instance)\<close> wrote); \<open>Corrupt bytes\<close> are bytes on which the block throws.
  The source casts what \<open>JSON.parse\<close> returns to \<open>DetachedInstance\<close> and checks nothing, so
  a parsed record is taken to have the fields of the type.
\<close>

datatype file_content = Json DetachedInstance | Corrupt string

text \<open>An entry of the process table that \<open>psList()\<close> returns.\<close>

record ProcessDescriptor =
  ps_pid :: int
  ps_cmd :: string

text \<open>What this module throws or rejects with.\<close>

datatype exn =
    SystemError number  \<comment> \<open>\<open>process.kill\<close> threw: no such process, or not permitted\<close>
  | TypeError  \<comment> \<open>a property of \<open>undefined\<close> or \<open>null\<close> was read\<close>
  | LaunchError string  \<comment> \<open>the \<open>err\<close> of the child's \<open>"error"\<close> event, by its message\<close>
  | Error string  \<comment> \<open>\<open>new Error(message)\<close>\<close>

text \<open>
  Everything outside the module that it reads or changes.
  \<^item> \<open>files\<close>: the directory \<open>dataPath\<close>, each file name with what the file holds, in the
    order \<open>readdirSync\<close> lists them;
  \<^item> \<open>processes\<close>: what \<open>psList()\<close> returns;
  \<^item> \<open>unkillable\<close>: the pids on which \<open>process.kill\<close> throws (the process is gone since
    the snapshot was taken, or the caller may not signal it);
  \<^item> \<open>kills\<close>: every call of \<open>process.kill(pid, "SIGTERM")\<close> so far, with whether the
    signal was delivered;
  \<^item> \<open>stderr\<close>: the lines written by \<open>console.error\<close>;
  \<^item> \<open>exitCode\<close>: \<open>process.exitCode\<close>;
  \<^item> \<open>forked\<close>: the children started by \<open>fork(module, childArgs, ...)\<close>.
\<close>

record world =
  files :: "(string \<times> file_content) list"
  processes :: "ProcessDescriptor list"
  unkillable :: "number list"
  kills :: "(number \<times> bool) list"
  stderr :: "string list"
  exitCode :: jvalue
  forked :: "(string \<times> jvalue list) list"

definition readdirSync :: "world \<Rightarrow> string list" where
  "readdirSync w = map fst (files w)"

definition existsSync :: "string \<Rightarrow> world \<Rightarrow> bool" where
  "existsSync filename w \<longleftrightarrow> filename \<in> set (map fst (files w))"

definition rmSync :: "string \<Rightarrow> world \<Rightarrow> world" where
  "rmSync filename w = w\<lparr>files := AList.delete filename (files w)\<rparr>"

definition readFileSync :: "string \<Rightarrow> world \<Rightarrow> file_content option" where
  "readFileSync filename w = map_of (files w) filename"

definition writeFileSync :: "string \<Rightarrow> file_content \<Rightarrow> world \<Rightarrow> world" where
  "writeFileSync filename content w = w\<lparr>files := AList.update filename content (files w)\<rparr>"

definition psList :: "world \<Rightarrow> ProcessDescriptor list" where
  "psList w = processes w"

definition console_error :: "string \<Rightarrow> world \<Rightarrow> world" where
  "console_error line w = w\<lparr>stderr := stderr w @ [line]\<rparr>"

text \<open>\<open>process.kill(pid, "SIGTERM")\<close>: returns, or throws and delivers nothing.\<close>

definition process_kill :: "number \<Rightarrow> world \<Rightarrow> (exn + unit) \<times> world" where
  "process_kill p w =
     (if p \<in> set (unkillable w) then (Inl (SystemError p), w\<lparr>kills := kills w @ [(p, False)]\<rparr>)
      else (Inr (), w\<lparr>kills := kills w @ [(p, True)]\<rparr>))"

definition removeDetachedInstanceFile :: "number \<Rightarrow> world \<Rightarrow> bool \<times> world" where
  "removeDetachedInstanceFile p w =
     (let instanceFilename = Number_toString p in
      if existsSync instanceFilename w then (True, rmSync instanceFilename w) else (False, w))"

section \<open>getDetachedInstances\<close>

text \<open>
  \<open>instances.sort(comparefn)\<close>: the sort is stable, and \<open>comparefn(a, b) > 0\<close> puts \<open>b\<close>
  before \<open>a\<close>. With a consistent \<open>comparefn\<close> every stable sort gives the same array;
  this one inserts from the right.
\<close>

fun sort_insert :: "('a \<Rightarrow> 'a \<Rightarrow> int) \<Rightarrow> 'a \<Rightarrow> 'a list \<Rightarrow> 'a list" where
  "sort_insert comparefn x [] = [x]"
| "sort_insert comparefn x (y # ys) =
     (if comparefn x y \<le> 0 then x # y # ys else y # sort_insert comparefn x ys)"

definition Array_sort :: "('a \<Rightarrow> 'a \<Rightarrow> int) \<Rightarrow> 'a list \<Rightarrow> 'a list" where
  "Array_sort comparefn xs = foldr (sort_insert comparefn) xs []"

text \<open>
  The body of the \<open>for\<close> loop, for one file name. An exception thrown by
  \<open>process.kill\<close> inside the \<open>catch\<close> block is not caught: it leaves the loop and the
  function.
\<close>

definition getDetachedInstances_file ::
  "ProcessDescriptor list \<Rightarrow> string \<Rightarrow> DetachedInstance list \<Rightarrow> world
     \<Rightarrow> (exn + DetachedInstance list) \<times> world" where
  "getDetachedInstances_file procs filename instances w =
     (let p = parseInt filename in
      case find (\<lambda>q. Number (ps_pid q) = p) procs of
        None \<Rightarrow> (Inr instances, snd (removeDetachedInstanceFile p w))
      | Some foundProcess \<Rightarrow>
          (case readFileSync filename w of
             Some (Json instance) \<Rightarrow>
               if ps_cmd foundProcess \<noteq> cmd instance
               then (Inr instances, snd (removeDetachedInstanceFile p w))
               else (Inr (instances @ [instance]), w)
           | _ \<Rightarrow>
               (case process_kill p
                       (console_error
                          (''Instance data corrupted. Process has been killed (PID ''
                             @ Number_toString p @ '')'') w) of
                  (Inl err, w') \<Rightarrow> (Inl err, w')
                | (Inr u, w') \<Rightarrow> (Inr instances, snd (removeDetachedInstanceFile p w')))))"

fun getDetachedInstances_loop ::
  "ProcessDescriptor list \<Rightarrow> string list \<Rightarrow> DetachedInstance list \<Rightarrow> world
     \<Rightarrow> (exn + DetachedInstance list) \<times> world" where
  "getDetachedInstances_loop procs [] instances w = (Inr instances, w)"
| "getDetachedInstances_loop procs (filename # rest) instances w =
     (case getDetachedInstances_file procs filename instances w of
        (Inl err, w') \<Rightarrow> (Inl err, w')
      | (Inr instances', w') \<Rightarrow> getDetachedInstances_loop procs rest instances' w')"

definition getDetachedInstances :: "world \<Rightarrow> (exn + DetachedInstance list) \<times> world" where
  "getDetachedInstances w =
     (case getDetachedInstances_loop (psList w) (readdirSync w) [] w of
        (Inl err, w') \<Rightarrow> (Inl err, w')
      | (Inr instances, w') \<Rightarrow>
          (Inr (Array_sort (\<lambda>a b. startTime b - startTime a) instances), w'))"

definition findDetachedInstanceByName ::
  "string \<Rightarrow> world \<Rightarrow> (exn + DetachedInstance option) \<times> world" where
  "findDetachedInstanceByName name w =
     (case getDetachedInstances w of
        (Inl err, w') \<Rightarrow> (Inl err, w')
      | (Inr instances, w') \<Rightarrow> (Inr (find (\<lambda>i. instanceName i = name) instances), w'))"

section \<open>stopDetachedInstance\<close>

text \<open>
  The \<open>catch\<close> block returns \<open>false\<close>; the \<open>finally\<close> block removes the file on both
  paths, before the function returns.
\<close>

definition stopDetachedInstance :: "string \<Rightarrow> world \<Rightarrow> (exn + bool) \<times> world" where
  "stopDetachedInstance name w =
     (case findDetachedInstanceByName name w of
        (Inl err, w') \<Rightarrow> (Inl err, w')
      | (Inr None, w') \<Rightarrow> (Inr False, w')
      | (Inr (Some instance), w') \<Rightarrow>
          (case process_kill (Number (pid instance)) w' of
             (Inl err, w'') \<Rightarrow>
               (Inr False, snd (removeDetachedInstanceFile (Number (pid instance)) w''))
           | (Inr u, w'') \<Rightarrow>
               (Inr True, snd (removeDetachedInstanceFile (Number (pid instance)) w''))))"

section \<open>startDetachedInstance\<close>

definition READY_MESSAGE :: string where
  "READY_MESSAGE = ''ready''"

definition START_ERROR :: string where
  "START_ERROR = ''An error ocurred spawning a detached instance of Ganache:''"

definition newline :: string where
  "newline = [CHR 0x0A]"

text \<open>
  Reading the property \<open>key\<close> of a value: of \<open>undefined\<close> and \<open>null\<close> it throws, of an
  object without the property it is \<open>undefined\<close>.
\<close>

fun getprop :: "jvalue \<Rightarrow> string \<Rightarrow> exn + jvalue" where
  "getprop JUndefined key = Inl TypeError"
| "getprop JNull key = Inl TypeError"
| "getprop (JObj kvs) key = Inr (case map_of kvs key of None \<Rightarrow> JUndefined | Some v \<Rightarrow> v)"
| "getprop (JBool b) key = Inr JUndefined"
| "getprop (JNum n) key = Inr JUndefined"
| "getprop (JStr s) key = Inr JUndefined"

text \<open>
  The \<open>do ... while\<close> loop that draws a name. \<open>createInstanceName\<close> is not part of this
  module and draws at random: here it is the sequence of the names it returns, call
  after call, and \<open>calls\<close> counts the calls made so far. The loop has no bound, so its
  result is optional: \<open>None\<close> is a loop that never ends.
\<close>

partial_function (option) instanceName_loop ::
  "(nat \<Rightarrow> string) \<Rightarrow> string list \<Rightarrow> nat \<Rightarrow> string option" where
  "instanceName_loop createInstanceName instanceNames calls =
     (if createInstanceName calls \<in> set instanceNames
      then instanceName_loop createInstanceName instanceNames (Suc calls)
      else Some (createInstanceName calls))"

declare instanceName_loop.simps [code]

text \<open>
  What the child does while the parent waits: the events its handle emits once the
  three handlers are attached, in order. \<open>OnExit code\<close> carries a number or \<open>null\<close>.
\<close>

datatype child_event = OnMessage string | OnError string | OnExit jvalue

text \<open>
  The promise the parent awaits. It settles at the first \<open>"ready"\<close> message, \<open>"error"\<close>
  or \<open>"exit"\<close>; no later event changes how it settled. There is no timeout: with none
  of the three the parent waits for ever (\<open>None\<close>).
\<close>

fun awaitReady :: "child_event list \<Rightarrow> world \<Rightarrow> ((exn + unit) \<times> world) option" where
  "awaitReady [] w = None"
| "awaitReady (OnMessage message # events) w =
     (if message = READY_MESSAGE then Some (Inr (), w) else awaitReady events w)"
| "awaitReady (OnError message # events) w =
     Some (Inl (LaunchError message),
           (console_error (START_ERROR @ newline @ message) w)\<lparr>exitCode := JNum ''1''\<rparr>)"
| "awaitReady (OnExit code # events) w =
     Some (Inl (Error (START_ERROR @ newline
                         @ ''The detached instance exited with error code: '' @ ToString code)),
           w\<lparr>exitCode := (if code = JNum ''0'' then JNum ''1'' else code)\<rparr>)"

definition fork :: "string \<Rightarrow> jvalue list \<Rightarrow> world \<Rightarrow> world" where
  "fork module childArgs w = w\<lparr>forked := forked w @ [(module, childArgs)]\<rparr>"

text \<open>
  \<open>startDetachedInstance(module, args, version)\<close>. What the outside decides is given:
  the names \<open>createInstanceName\<close> draws, the pid of the forked child, the events of the
  child, and the clock \<open>Date.now()\<close>. The result is \<open>None\<close> when the call never returns.
\<close>

definition startDetachedInstance ::
  "(nat \<Rightarrow> string) \<Rightarrow> int \<Rightarrow> child_event list \<Rightarrow> int
     \<Rightarrow> string \<Rightarrow> jvalue \<Rightarrow> string \<Rightarrow> world \<Rightarrow> ((exn + DetachedInstance) \<times> world) option" where
  "startDetachedInstance createInstanceName child_pid events now module args version' w =
     (case getprop args ''flavor'' of
        Inl err \<Rightarrow> Some (Inl err, w)
      | Inr flavor' \<Rightarrow>
     (let childArgs = createFlatChildArgs args;
          w1 = fork module childArgs w
      in
     (case find (\<lambda>p. ps_pid p = child_pid) (psList w1) of
        None \<Rightarrow> Some (Inl TypeError, w1)
      | Some child_process \<Rightarrow>
     (let cmd' = ps_cmd child_process in
     (case getDetachedInstances w1 of
        (Inl err, w2) \<Rightarrow> Some (Inl err, w2)
      | (Inr instances, w2) \<Rightarrow>
     (let instanceNames = map instanceName instances in
     (case instanceName_loop createInstanceName instanceNames 0 of
        None \<Rightarrow> None
      | Some instanceName' \<Rightarrow>
     (case awaitReady events w2 of
        None \<Rightarrow> None
      | Some (Inl err, w3) \<Rightarrow> Some (Inl err, w3)
      | Some (Inr u, w3) \<Rightarrow>
     (case getprop args ''server'' of
        Inl err \<Rightarrow> Some (Inl err, w3)
      | Inr server \<Rightarrow>
     (case getprop server ''host'' of
        Inl err \<Rightarrow> Some (Inl err, w3)
      | Inr host' \<Rightarrow>
     (case getprop server ''port'' of
        Inl err \<Rightarrow> Some (Inl err, w3)
      | Inr port' \<Rightarrow>
     (let instance = \<lparr>instanceName = instanceName', pid = child_pid, startTime = now,
                       host = host', port = port', flavor = flavor', cmd = cmd',
                       version = version'\<rparr>;
          instanceFilename = Number_toString (Number (pid instance))
      in Some (Inr instance,
               writeFileSync instanceFilename (Json instance) w3)))))))))))))"

section \<open>What the claims speak of\<close>

text \<open>
  The invariant of the registry: file names are distinct, every file is named by the
  decimal form of a pid, and a record that parses carries the pid of its file name.
\<close>

definition registry_wf :: "world \<Rightarrow> bool" where
  "registry_wf w \<longleftrightarrow>
     distinct (map fst (files w)) \<and>
     list_all (\<lambda>(filename, content).
                 Number_toString (parseInt filename) = filename \<and>
                 (case content of
                    Json instance \<Rightarrow> parseInt filename = Number (pid instance)
                  | Corrupt bytes \<Rightarrow> True))
              (files w)"

text \<open>
  \<open>binds obj path key val\<close>: in the object \<open>obj\<close>, inside the nested objects named by
  \<open>path\<close> (outermost first, none of them under a \<open>flavor\<close> or \<open>action\<close> key), the key
  \<open>key\<close> is bound to \<open>val\<close>.
\<close>

inductive binds :: "(string \<times> jvalue) list \<Rightarrow> string list \<Rightarrow> string \<Rightarrow> jvalue \<Rightarrow> bool" where
  here: "(key, val) \<in> set obj \<Longrightarrow> binds obj [] key val"
| inside: "(k, JObj inner) \<in> set obj \<Longrightarrow> k \<noteq> ''flavor'' \<Longrightarrow> k \<noteq> ''action''
           \<Longrightarrow> binds inner path key val \<Longrightarrow> binds obj (k # path) key val"

code_pred binds .

text \<open>A scalar is any value that is not an object.\<close>

fun is_scalar :: "jvalue \<Rightarrow> bool" where
  "is_scalar (JObj kvs) = False"
| "is_scalar v = True"

text \<open>The namespace prefix of a path: each enclosing key followed by a dot.\<close>

definition dotted :: "string list \<Rightarrow> string" where
  "dotted path = concat (map (\<lambda>k. k @ ''.'') path)"

text \<open>An event that leaves the promise pending: a message other than \<open>"ready"\<close>.\<close>

fun leaves_pending :: "child_event \<Rightarrow> bool" where
  "leaves_pending (OnMessage message) = (message \<noteq> READY_MESSAGE)"
| "leaves_pending (OnError message) = False"
| "leaves_pending (OnExit code) = False"

text \<open>
  The flattened output as the description of the flattener words it, for comparison with
  \<open>createFlatChildArgs\<close>. \<open>flavor_values obj\<close> are the values bound to a \<open>flavor\<close> key, at
  any depth, in the order of the walk; nothing under an \<open>action\<close> key is looked at, and
  the value of a \<open>flavor\<close> key is taken whole.
\<close>

fun flavor_values :: "(string \<times> jvalue) list \<Rightarrow> jvalue list" where
  "flavor_values [] = []"
| "flavor_values ((key, val) # rest) =
     (if key = ''flavor'' then [val]
      else if key = ''action'' then []
      else (case val of JObj inner \<Rightarrow> flavor_values inner | _ \<Rightarrow> []))
     @ flavor_values rest"

text \<open>
  \<open>bindings obj\<close> are the scalars of the configuration in the order of the walk, each
  with the keys of its enclosing objects and its own key; the \<open>flavor\<close> and \<open>action\<close>
  keys, and all that is under them, are left out.
\<close>

fun bindings :: "(string \<times> jvalue) list \<Rightarrow> (string list \<times> string \<times> jvalue) list" where
  "bindings [] = []"
| "bindings ((key, val) # rest) =
     (if key = ''flavor'' \<or> key = ''action'' then []
      else (case val of
              JObj inner \<Rightarrow> map (apfst ((#) key)) (bindings inner)
            | _ \<Rightarrow> [([], key, val)]))
     @ bindings rest"

text \<open>The flag of a binding, \<open>--{prefix}{path}{key}={value}\<close>.\<close>

definition flag :: "string \<Rightarrow> string list \<times> string \<times> jvalue \<Rightarrow> jvalue" where
  "flag prefix b = (case b of (path, key, val) \<Rightarrow>
                      JStr (''--'' @ prefix @ dotted path @ key @ ''='' @ ToString val))"

text \<open>A binding whose value is not \<open>null\<close>.\<close>

definition not_null :: "string list \<times> string \<times> jvalue \<Rightarrow> bool" where
  "not_null b = (case b of (path, key, val) \<Rightarrow> val \<noteq> JNull)"

section \<open>Example registries\<close>

definition amber :: DetachedInstance where
  "amber = \<lparr>instanceName = ''amber_owl'', pid = 5, startTime = 10,
             host = JStr ''127.0.0.1'', port = JNum ''8545'', flavor = JStr ''ethereum'',
             cmd = ''node ganache --server.port=8545'', version = ''7.0.0''\<rparr>"

definition birch :: DetachedInstance where
  "birch = \<lparr>instanceName = ''birch_fox'', pid = 7, startTime = 20,
             host = JStr ''127.0.0.1'', port = JNum ''8546'', flavor = JStr ''ethereum'',
             cmd = ''node ganache --server.port=8546'', version = ''7.0.0''\<rparr>"

text \<open>Two live instances, the older one listed first by the directory.\<close>

definition two_live :: world where
  "two_live = \<lparr>files = [(''5'', Json amber), (''7'', Json birch)],
                processes = [\<lparr>ps_pid = 5, ps_cmd = ''node ganache --server.port=8545''\<rparr>,
                             \<lparr>ps_pid = 7, ps_cmd = ''node ganache --server.port=8546''\<rparr>],
                unkillable = [], kills = [], stderr = [], exitCode = JUndefined, forked = []\<rparr>"

text \<open>The process of \<open>amber_owl\<close> is in the snapshot, but can no longer be signalled.\<close>

definition gone_since_snapshot :: world where
  "gone_since_snapshot = \<lparr>files = [(''5'', Json amber)],
      processes = [\<lparr>ps_pid = 5, ps_cmd = ''node ganache --server.port=8545''\<rparr>],
      unkillable = [Number 5], kills = [], stderr = [], exitCode = JUndefined, forked = []\<rparr>"

text \<open>A record whose process is gone.\<close>

definition one_stale :: world where
  "one_stale = \<lparr>files = [(''7'', Json birch)], processes = [],
      unkillable = [], kills = [], stderr = [], exitCode = JUndefined, forked = []\<rparr>"

text \<open>The pid of \<open>amber_owl\<close> now belongs to an editor.\<close>

definition pid_reused :: world where
  "pid_reused = \<lparr>files = [(''5'', Json amber), (''7'', Json birch)],
      processes = [\<lparr>ps_pid = 5, ps_cmd = ''vim notes.txt''\<rparr>,
                   \<lparr>ps_pid = 7, ps_cmd = ''node ganache --server.port=8546''\<rparr>],
      unkillable = [], kills = [], stderr = [], exitCode = JUndefined, forked = []\<rparr>"

text \<open>Two live instances, and the child just forked under pid 9.\<close>

definition spawning :: world where
  "spawning = \<lparr>files = [(''5'', Json amber), (''7'', Json birch)],
      processes = [\<lparr>ps_pid = 5, ps_cmd = ''node ganache --server.port=8545''\<rparr>,
                   \<lparr>ps_pid = 7, ps_cmd = ''node ganache --server.port=8546''\<rparr>,
                   \<lparr>ps_pid = 9, ps_cmd = ''node ganache --server.port=8547''\<rparr>],
      unkillable = [], kills = [], stderr = [], exitCode = JUndefined, forked = []\<rparr>"

text \<open>The same, with the fork recorded.\<close>

definition spawned :: world where
  "spawned = \<lparr>files = [(''5'', Json amber), (''7'', Json birch)],
      processes = [\<lparr>ps_pid = 5, ps_cmd = ''node ganache --server.port=8545''\<rparr>,
                   \<lparr>ps_pid = 7, ps_cmd = ''node ganache --server.port=8546''\<rparr>,
                   \<lparr>ps_pid = 9, ps_cmd = ''node ganache --server.port=8547''\<rparr>],
      unkillable = [], kills = [], stderr = [], exitCode = JUndefined,
      forked = [(''ganache'', [JStr ''ethereum'', JStr ''--server.host=127.0.0.1'',
                               JStr ''--server.port=8547''])]\<rparr>"

text \<open>The configuration the child is started with.\<close>

definition start_args :: jvalue where
  "start_args = JObj [(''flavor'', JStr ''ethereum''),
                     (''server'', JObj [(''host'', JStr ''127.0.0.1''),
                                        (''port'', JNum ''8547'')]),
                     (''action'', JStr ''start-detached'')]"

text \<open>A generator that draws a name in use twice, then a new one.\<close>

definition draws :: "nat \<Rightarrow> string" where
  "draws i = (if i < 2 then ''amber_owl'' else ''cedar_elk'')"

text \<open>The record of the child.\<close>

definition cedar :: DetachedInstance where
  "cedar = \<lparr>instanceName = ''cedar_elk'', pid = 9, startTime = 30,
             host = JStr ''127.0.0.1'', port = JNum ''8547'', flavor = JStr ''ethereum'',
             cmd = ''node ganache --server.port=8547'', version = ''7.0.0''\<rparr>"

text \<open>
  The file of pid 5 is cut short, and pid 5 now belongs to a process that the caller
  may not signal.
\<close>

definition corrupt_unkillable :: world where
  "corrupt_unkillable = \<lparr>files = [(''5'', Corrupt ''{ins''), (''7'', Json birch)],
      processes = [\<lparr>ps_pid = 5, ps_cmd = ''postgres''\<rparr>,
                   \<lparr>ps_pid = 7, ps_cmd = ''node ganache --server.port=8546''\<rparr>],
      unkillable = [Number 5], kills = [], stderr = [], exitCode = JUndefined, forked = []\<rparr>"

text \<open>
  A file that does not parse, for a pid whose process may not be signalled, listed
  before the record of \<open>amber_owl\<close>, whose pid now belongs to an editor.
\<close>

definition corrupt_before_reused :: world where
  "corrupt_before_reused = \<lparr>files = [(''3'', Corrupt ''{ins''), (''5'', Json amber)],
      processes = [\<lparr>ps_pid = 3, ps_cmd = ''postgres''\<rparr>,
                   \<lparr>ps_pid = 5, ps_cmd = ''vim notes.txt''\<rparr>],
      unkillable = [Number 3], kills = [], stderr = [], exitCode = JUndefined, forked = []\<rparr>"

section \<open>Sorting\<close>

lemma set_sort_insert: "set (sort_insert c x ys) = insert x (set ys)"
  by (induction ys) auto

lemma set_Array_sort: "set (Array_sort c xs) = set xs"
  unfolding Array_sort_def by (induction xs) (auto simp: set_sort_insert)

lemma sorted_sort_insert:
  "sorted_wrt (\<lambda>a b. startTime b \<le> startTime a) ys
   \<Longrightarrow> sorted_wrt (\<lambda>a b. startTime b \<le> startTime a)
         (sort_insert (\<lambda>a b. startTime b - startTime a) x ys)"
  by (induction ys) (auto simp: set_sort_insert)

lemma sorted_Array_sort:
  "sorted_wrt (\<lambda>a b. startTime b \<le> startTime a)
     (Array_sort (\<lambda>a b. startTime b - startTime a) xs)"
  unfolding Array_sort_def by (induction xs) (auto intro: sorted_sort_insert)

lemma getDetachedInstances_sorted:
  assumes "getDetachedInstances w = (Inr insts, w')"
  shows "sorted_wrt (\<lambda>a b. startTime b \<le> startTime a) insts"
  using assms unfolding getDetachedInstances_def
  by (auto split: prod.splits sum.splits simp: sorted_Array_sort)

text \<open>
  C8. Whatever \<open>getDetachedInstances\<close> returns is ordered newest first: no record has a
  later \<open>startTime\<close> than a record before it, and in particular each record's
  \<open>startTime\<close> is at least that of the record right after it.
\<close>

theorem list_newest_first:
  assumes "getDetachedInstances w = (Inr insts, w')"
  shows "sorted_wrt (\<lambda>a b. startTime b \<le> startTime a) insts
         \<and> (\<forall>i. Suc i < length insts \<longrightarrow> startTime (insts ! Suc i) \<le> startTime (insts ! i))"
proof -
  have s: "sorted_wrt (\<lambda>a b. startTime b \<le> startTime a) insts"
    by (rule getDetachedInstances_sorted [OF assms])
  have "\<forall>i. Suc i < length insts \<longrightarrow> startTime (insts ! Suc i) \<le> startTime (insts ! i)"
    using s by (auto simp: sorted_wrt_iff_nth_less)
  with s show ?thesis by simp
qed

theorem list_newest_first_witness:
  "getDetachedInstances two_live = (Inr [birch, amber], two_live)
   \<and> startTime ([birch, amber] ! Suc 0) \<le> startTime ([birch, amber] ! 0)"
proof -
  have h: "getDetachedInstances two_live = (Inr [birch, amber], two_live)"
    by code_simp
  from list_newest_first [OF h] have "startTime ([birch, amber] ! Suc 0) \<le> startTime ([birch, amber] ! 0)"
    by simp
  with h show ?thesis by simp
qed

section \<open>A pass over the registry\<close>

lemma set_delete_subset: "set (AList.delete k al) \<subseteq> set al"
  by (auto simp: AList.delete_eq)

lemma removeDetachedInstanceFile_world:
  "snd (removeDetachedInstanceFile p w) = w\<lparr>files := AList.delete (Number_toString p) (files w)\<rparr>"
  by (simp add: removeDetachedInstanceFile_def existsSync_def rmSync_def Let_def)

lemma process_kill_world:
  "snd (process_kill p w) = w\<lparr>kills := kills w @ [(p, p \<notin> set (unkillable w))]\<rparr>"
  by (simp add: process_kill_def)

lemma process_kill_result:
  "fst (process_kill p w) = (if p \<in> set (unkillable w) then Inl (SystemError p) else Inr ())"
  by (simp add: process_kill_def)

text \<open>One file of the pass.\<close>

lemma file_step_files:
  "files (snd (getDetachedInstances_file procs g acc w)) = files w
   \<or> files (snd (getDetachedInstances_file procs g acc w))
       = AList.delete (Number_toString (parseInt g)) (files w)"
  by (auto simp: getDetachedInstances_file_def Let_def removeDetachedInstanceFile_world
        process_kill_def console_error_def
      split: option.splits file_content.splits prod.splits sum.splits)

lemma file_step_frame:
  "processes (snd (getDetachedInstances_file procs g acc w)) = processes w"
  "unkillable (snd (getDetachedInstances_file procs g acc w)) = unkillable w"
  by (auto simp: getDetachedInstances_file_def Let_def removeDetachedInstanceFile_world
        process_kill_def console_error_def
      split: option.splits file_content.splits prod.splits sum.splits)

lemma file_step_kills:
  "kills (snd (getDetachedInstances_file procs g acc w)) = kills w
   \<or> (\<exists>b. kills (snd (getDetachedInstances_file procs g acc w)) = kills w @ [(parseInt g, b)]
          \<and> (\<forall>r. readFileSync g w \<noteq> Some (Json r)))"
  by (auto simp: getDetachedInstances_file_def Let_def removeDetachedInstanceFile_world
        process_kill_def console_error_def
      split: option.splits file_content.splits prod.splits sum.splits)

lemma file_step_result:
  assumes "getDetachedInstances_file procs g acc w = (Inr acc', w')"
  shows "acc' = acc
         \<or> (\<exists>r fp. acc' = acc @ [r] \<and> readFileSync g w = Some (Json r)
               \<and> find (\<lambda>q. Number (ps_pid q) = parseInt g) procs = Some fp
               \<and> ps_cmd fp = cmd r)"
  using assms
  by (auto simp: getDetachedInstances_file_def Let_def
      split: option.splits file_content.splits prod.splits sum.splits if_splits)

text \<open>The whole loop.\<close>

lemma loop_files_subset:
  "set (files (snd (getDetachedInstances_loop procs names acc w))) \<subseteq> set (files w)"
proof (induction names arbitrary: acc w)
  case Nil
  then show ?case by simp
next
  case (Cons g names)
  obtain res w1 where step: "getDetachedInstances_file procs g acc w = (res, w1)"
    by (cases "getDetachedInstances_file procs g acc w")
  have sub1: "set (files w1) \<subseteq> set (files w)"
    using file_step_files [of procs g acc w] set_delete_subset [of "Number_toString (parseInt g)" "files w"]
    by (auto simp: step)
  show ?case
  proof (cases res)
    case (Inl e)
    with step sub1 show ?thesis by simp
  next
    case (Inr acc1)
    with step sub1 Cons.IH [of acc1 w1] show ?thesis by auto
  qed
qed

lemma loop_frame:
  "processes (snd (getDetachedInstances_loop procs names acc w)) = processes w
   \<and> unkillable (snd (getDetachedInstances_loop procs names acc w)) = unkillable w"
proof (induction names arbitrary: acc w)
  case Nil
  then show ?case by simp
next
  case (Cons g names)
  obtain res w1 where step: "getDetachedInstances_file procs g acc w = (res, w1)"
    by (cases "getDetachedInstances_file procs g acc w")
  have fr: "processes w1 = processes w" "unkillable w1 = unkillable w"
    using file_step_frame [of procs g acc w] by (simp_all add: step)
  show ?case
  proof (cases res)
    case (Inl e)
    with step fr show ?thesis by simp
  next
    case (Inr acc1)
    with step fr Cons.IH [of acc1 w1] show ?thesis by simp
  qed
qed

lemma loop_result:
  assumes "getDetachedInstances_loop procs names acc w = (Inr insts, w')"
    and "r \<in> set insts"
  shows "r \<in> set acc
         \<or> (\<exists>g fp. g \<in> set names \<and> (g, Json r) \<in> set (files w)
               \<and> find (\<lambda>q. Number (ps_pid q) = parseInt g) procs = Some fp
               \<and> ps_cmd fp = cmd r)"
  using assms
proof (induction names arbitrary: acc w)
  case Nil
  then show ?case by simp
next
  case (Cons g names)
  obtain res w1 where step: "getDetachedInstances_file procs g acc w = (res, w1)"
    by (cases "getDetachedInstances_file procs g acc w")
  with Cons.prems(1) obtain acc1 where res: "res = Inr acc1"
    and rest: "getDetachedInstances_loop procs names acc1 w1 = (Inr insts, w')"
    by (cases res) auto
  have sub1: "set (files w1) \<subseteq> set (files w)"
    using file_step_files [of procs g acc w] set_delete_subset [of "Number_toString (parseInt g)" "files w"]
    by (auto simp: step)
  from Cons.IH [OF rest Cons.prems(2)]
  consider "r \<in> set acc1"
    | g' fp where "g' \<in> set names" "(g', Json r) \<in> set (files w1)"
        "find (\<lambda>q. Number (ps_pid q) = parseInt g') procs = Some fp" "ps_cmd fp = cmd r"
    by blast
  then show ?case
  proof cases
    case 1
    from file_step_result [OF step [unfolded res]]
    consider "acc1 = acc"
      | r' fp where "acc1 = acc @ [r']" "readFileSync g w = Some (Json r')"
          "find (\<lambda>q. Number (ps_pid q) = parseInt g) procs = Some fp" "ps_cmd fp = cmd r'"
      by blast
    then show ?thesis
    proof cases
      case 1
      with \<open>r \<in> set acc1\<close> show ?thesis by simp
    next
      case 2
      from 2(2) have mem: "(g, Json r') \<in> set (files w)"
        by (simp add: readFileSync_def map_of_SomeD)
      show ?thesis
      proof (cases "r = r'")
        case True
        with mem 2(3,4) show ?thesis by auto
      next
        case False
        with \<open>r \<in> set acc1\<close> 2(1) show ?thesis by simp
      qed
    qed
  next
    case 2
    with sub1 show ?thesis by auto
  qed
qed

lemma getDetachedInstances_files_subset:
  "set (files (snd (getDetachedInstances w))) \<subseteq> set (files w)"
  using loop_files_subset [of "psList w" "readdirSync w" "[]" w]
  by (auto simp: getDetachedInstances_def split: prod.splits sum.splits)

lemma getDetachedInstances_frame:
  "processes (snd (getDetachedInstances w)) = processes w
   \<and> unkillable (snd (getDetachedInstances w)) = unkillable w"
  using loop_frame [of "psList w" "readdirSync w" "[]" w]
  by (auto simp: getDetachedInstances_def split: prod.splits sum.splits)

lemma getDetachedInstances_result:
  assumes "getDetachedInstances w = (Inr insts, w')" and "r \<in> set insts"
  shows "\<exists>g fp. (g, Json r) \<in> set (files w)
               \<and> find (\<lambda>q. Number (ps_pid q) = parseInt g) (processes w) = Some fp
               \<and> ps_cmd fp = cmd r"
proof -
  from assms(1) obtain raw where
    loop: "getDetachedInstances_loop (psList w) (readdirSync w) [] w = (Inr raw, w')"
    and insts: "insts = Array_sort (\<lambda>a b. startTime b - startTime a) raw"
    by (auto simp: getDetachedInstances_def split: prod.splits sum.splits)
  from assms(2) insts have "r \<in> set raw" by (simp add: set_Array_sort)
  from loop_result [OF loop this] show ?thesis by (auto simp: psList_def)
qed

text \<open>A pass ends with a list when \<open>process.kill\<close> throws on none of the pids it meets.\<close>

lemma file_step_returns:
  assumes "parseInt g \<notin> set (unkillable w)"
  shows "\<exists>acc'. fst (getDetachedInstances_file procs g acc w) = Inr acc'"
  using assms
  by (auto simp: getDetachedInstances_file_def Let_def process_kill_def console_error_def
      split: option.splits file_content.splits)

lemma loop_returns:
  assumes "\<forall>g\<in>set names. parseInt g \<notin> set (unkillable w)"
  shows "\<exists>insts. fst (getDetachedInstances_loop procs names acc w) = Inr insts"
  using assms
proof (induction names arbitrary: acc w)
  case Nil
  then show ?case by simp
next
  case (Cons g names)
  from Cons.prems have "parseInt g \<notin> set (unkillable w)" by simp
  from file_step_returns [OF this, of procs acc] obtain acc1 w1 where
    step: "getDetachedInstances_file procs g acc w = (Inr acc1, w1)"
    by (cases "getDetachedInstances_file procs g acc w") auto
  have "unkillable w1 = unkillable w"
    using file_step_frame(2) [of procs g acc w] by (simp add: step)
  with Cons.prems have "\<forall>g\<in>set names. parseInt g \<notin> set (unkillable w1)" by simp
  from Cons.IH [OF this, of acc1] step show ?case by simp
qed

lemma getDetachedInstances_returns:
  assumes "\<forall>g\<in>set (readdirSync w). parseInt g \<notin> set (unkillable w)"
  shows "\<exists>insts w'. getDetachedInstances w = (Inr insts, w')"
proof -
  from loop_returns [OF assms, of "psList w" "[]"] obtain raw w' where
    "getDetachedInstances_loop (psList w) (readdirSync w) [] w = (Inr raw, w')"
    by (cases "getDetachedInstances_loop (psList w) (readdirSync w) [] w") auto
  then show ?thesis by (simp add: getDetachedInstances_def)
qed

section \<open>Stopping an instance\<close>

lemma findDetachedInstanceByName_Some:
  assumes "findDetachedInstanceByName name w = (Inr (Some inst), w1)"
  shows "\<exists>insts. getDetachedInstances w = (Inr insts, w1) \<and> inst \<in> set insts
           \<and> instanceName inst = name"
  using assms
  by (auto simp: findDetachedInstanceByName_def find_Some_iff split: prod.splits sum.splits)

lemma findDetachedInstanceByName_unkillable:
  assumes "findDetachedInstanceByName name w = (res, w1)"
  shows "unkillable w1 = unkillable w"
  using assms getDetachedInstances_frame [of w]
  by (auto simp: findDetachedInstanceByName_def split: prod.splits sum.splits)

lemma stop_found:
  assumes "findDetachedInstanceByName name w = (Inr (Some inst), w1)"
  shows "stopDetachedInstance name w
         = (Inr (Number (pid inst) \<notin> set (unkillable w)),
            w1\<lparr>kills := kills w1 @ [(Number (pid inst), Number (pid inst) \<notin> set (unkillable w))],
               files := AList.delete (Number_toString (Number (pid inst))) (files w1)\<rparr>)"
  using assms findDetachedInstanceByName_unkillable [OF assms]
  by (simp add: stopDetachedInstance_def process_kill_def removeDetachedInstanceFile_world)

text \<open>
  C1, amended. When a record with the name is found, \<open>stopDetachedInstance\<close> calls
  \<open>process.kill\<close> once, on the pid of the record, and returns \<open>true\<close> exactly when that
  call delivers the signal; when it throws, the function returns \<open>false\<close>.
\<close>

theorem stop_reports_delivery:
  assumes "findDetachedInstanceByName name w = (Inr (Some inst), w1)"
  shows "fst (stopDetachedInstance name w) = Inr (Number (pid inst) \<notin> set (unkillable w))
         \<and> kills (snd (stopDetachedInstance name w))
             = kills w1 @ [(Number (pid inst), Number (pid inst) \<notin> set (unkillable w))]"
proof -
  note stop = stop_found [OF assms]
  have "fst (stopDetachedInstance name w) = Inr (Number (pid inst) \<notin> set (unkillable w))"
    by (simp add: stop)
  moreover have "kills (snd (stopDetachedInstance name w))
             = kills w1 @ [(Number (pid inst), Number (pid inst) \<notin> set (unkillable w))]"
    by (simp add: stop)
  ultimately show ?thesis by simp
qed

theorem stop_reports_delivery_witness:
  "findDetachedInstanceByName ''birch_fox'' two_live = (Inr (Some birch), two_live)
   \<and> fst (stopDetachedInstance ''birch_fox'' two_live) = Inr True"
proof -
  have h: "findDetachedInstanceByName ''birch_fox'' two_live = (Inr (Some birch), two_live)"
    by code_simp
  have "Number (pid birch) \<notin> set (unkillable two_live)" by code_simp
  with stop_reports_delivery [OF h] h show ?thesis by simp
qed

text \<open>
  C1 as stated fails: the record of \<open>amber_owl\<close> is found, the delivery of the signal to
  its pid fails, and \<open>stopDetachedInstance\<close> returns \<open>false\<close>.
\<close>

theorem stop_found_but_false:
  "findDetachedInstanceByName ''amber_owl'' gone_since_snapshot
     = (Inr (Some amber), gone_since_snapshot)
   \<and> kills (snd (stopDetachedInstance ''amber_owl'' gone_since_snapshot)) = [(Number 5, False)]
   \<and> fst (stopDetachedInstance ''amber_owl'' gone_since_snapshot) = Inr False"
  by code_simp

text \<open>
  C5, amended. For a name that no record returned by \<open>getDetachedInstances\<close> carries,
  \<open>stopDetachedInstance\<close> returns \<open>false\<close> and leaves everything exactly as the pass of
  \<open>getDetachedInstances\<close> that it runs leaves it: no file is created or changed, and the
  only files removed are those the pass evicts.
\<close>

theorem stop_unknown_name:
  assumes "getDetachedInstances w = (Inr insts, w')"
    and "name \<notin> instanceName ` set insts"
  shows "stopDetachedInstance name w = (Inr False, w') \<and> set (files w') \<subseteq> set (files w)"
proof -
  from assms(2) have "find (\<lambda>i. instanceName i = name) insts = None"
    by (auto simp: find_None_iff)
  with assms(1) have "stopDetachedInstance name w = (Inr False, w')"
    by (simp add: stopDetachedInstance_def findDetachedInstanceByName_def)
  moreover from getDetachedInstances_files_subset [of w] assms(1)
  have "set (files w') \<subseteq> set (files w)" by simp
  ultimately show ?thesis by simp
qed

theorem stop_unknown_name_witness:
  "getDetachedInstances one_stale = (Inr [], one_stale\<lparr>files := []\<rparr>)
   \<and> ''amber_owl'' \<notin> instanceName ` set ([] :: DetachedInstance list)
   \<and> stopDetachedInstance ''amber_owl'' one_stale = (Inr False, one_stale\<lparr>files := []\<rparr>)"
proof -
  have h: "getDetachedInstances one_stale = (Inr [], one_stale\<lparr>files := []\<rparr>)"
    by code_simp
  have n: "''amber_owl'' \<notin> instanceName ` set ([] :: DetachedInstance list)" by simp
  from stop_unknown_name [OF h n] h n show ?thesis by simp
qed

text \<open>
  C5 as stated fails: no record is listed, \<open>stopDetachedInstance\<close> returns \<open>false\<close> for
  the unknown name, and the stale file \<open>7\<close> is gone afterwards.
\<close>

theorem stop_unknown_name_evicts:
  "getDetachedInstances one_stale = (Inr [], one_stale\<lparr>files := []\<rparr>)
   \<and> fst (stopDetachedInstance ''amber_owl'' one_stale) = Inr False
   \<and> files one_stale = [(''7'', Json birch)]
   \<and> files (snd (stopDetachedInstance ''amber_owl'' one_stale)) = []"
  by code_simp

lemma registry_wf_entry:
  assumes "registry_wf w" and "(g, c) \<in> set (files w)"
  shows "Number_toString (parseInt g) = g" and "map_of (files w) g = Some c"
    and "\<And>r. c = Json r \<Longrightarrow> parseInt g = Number (pid r)"
  using assms by (auto simp: registry_wf_def list_all_iff)

text \<open>
  C6. When a record with the name is found, the file named by the pid of the record
  does not exist after \<open>stopDetachedInstance\<close>, whether the signal was delivered or
  not; in a registry that satisfies its invariant that file is the one that held the
  record.
\<close>

theorem stop_removes_file:
  assumes "findDetachedInstanceByName name w = (Inr (Some inst), w1)"
  shows "\<not> existsSync (Number_toString (Number (pid inst))) (snd (stopDetachedInstance name w))
         \<and> (registry_wf w \<longrightarrow>
              readFileSync (Number_toString (Number (pid inst))) w = Some (Json inst))"
proof -
  have gone: "\<not> existsSync (Number_toString (Number (pid inst))) (snd (stopDetachedInstance name w))"
    using AList.delete_notin_dom [of "Number_toString (Number (pid inst))" "files w1"]
    by (simp add: stop_found [OF assms] existsSync_def)
  have "readFileSync (Number_toString (Number (pid inst))) w = Some (Json inst)" if wf: "registry_wf w"
  proof -
    from findDetachedInstanceByName_Some [OF assms] obtain insts where
      "getDetachedInstances w = (Inr insts, w1)" "inst \<in> set insts" by blast
    from getDetachedInstances_result [OF this] obtain g where g: "(g, Json inst) \<in> set (files w)"
      by blast
    from registry_wf_entry [OF wf g] have "Number_toString (Number (pid inst)) = g"
      "map_of (files w) g = Some (Json inst)" by auto
    then show ?thesis by (simp add: readFileSync_def)
  qed
  with gone show ?thesis by simp
qed

theorem stop_removes_file_witness:
  "findDetachedInstanceByName ''amber_owl'' gone_since_snapshot
     = (Inr (Some amber), gone_since_snapshot)
   \<and> registry_wf gone_since_snapshot
   \<and> fst (stopDetachedInstance ''amber_owl'' gone_since_snapshot) = Inr False
   \<and> readFileSync ''5'' gone_since_snapshot = Some (Json amber)
   \<and> \<not> existsSync ''5'' (snd (stopDetachedInstance ''amber_owl'' gone_since_snapshot))"
proof -
  have h: "findDetachedInstanceByName ''amber_owl'' gone_since_snapshot
     = (Inr (Some amber), gone_since_snapshot)" by code_simp
  have wf: "registry_wf gone_since_snapshot" by code_simp
  have f: "Number_toString (Number (pid amber)) = ''5''" by code_simp
  have r: "fst (stopDetachedInstance ''amber_owl'' gone_since_snapshot) = Inr False" by code_simp
  from stop_removes_file [OF h] wf h f r show ?thesis by simp
qed

section \<open>A pid taken by another process\<close>

lemma file_step_other_file:
  assumes "Number_toString (parseInt g) = g" and "f \<noteq> g"
  shows "map_of (files (snd (getDetachedInstances_file procs g acc w))) f = map_of (files w) f"
  using file_step_files [of procs g acc w] assms by auto

lemma loop_no_kill:
  assumes "\<forall>g\<in>set names. Number_toString (parseInt g) = g"
    and "distinct names"
    and "\<forall>g\<in>set names. parseInt g = p \<longrightarrow> (\<exists>r. map_of (files w) g = Some (Json r))"
  shows "filter (\<lambda>k. fst k = p) (kills (snd (getDetachedInstances_loop procs names acc w)))
         = filter (\<lambda>k. fst k = p) (kills w)"
  using assms
proof (induction names arbitrary: acc w)
  case Nil
  then show ?case by simp
next
  case (Cons g names)
  obtain res w1 where step: "getDetachedInstances_file procs g acc w = (res, w1)"
    by (cases "getDetachedInstances_file procs g acc w")
  have canon: "Number_toString (parseInt g) = g" using Cons.prems(1) by simp
  have k1: "filter (\<lambda>k. fst k = p) (kills w1) = filter (\<lambda>k. fst k = p) (kills w)"
  proof (cases "parseInt g = p")
    case True
    with Cons.prems(3) obtain r where "readFileSync g w = Some (Json r)"
      by (auto simp: readFileSync_def)
    with file_step_kills [of procs g acc w] step show ?thesis by auto
  next
    case False
    with file_step_kills [of procs g acc w] step show ?thesis by auto
  qed
  show ?case
  proof (cases res)
    case (Inl e)
    with step k1 show ?thesis by simp
  next
    case (Inr acc1)
    have safe1: "\<forall>h\<in>set names. parseInt h = p \<longrightarrow> (\<exists>r. map_of (files w1) h = Some (Json r))"
    proof (intro ballI impI)
      fix h assume h: "h \<in> set names" "parseInt h = p"
      with Cons.prems(2) have "h \<noteq> g" by auto
      from file_step_other_file [OF canon this, of procs acc w] step
      have "map_of (files w1) h = map_of (files w) h" by simp
      with Cons.prems(3) h show "\<exists>r. map_of (files w1) h = Some (Json r)" by simp
    qed
    from Cons.prems have "\<forall>g\<in>set names. Number_toString (parseInt g) = g" "distinct names"
      by simp_all
    from Cons.IH [OF this safe1, of acc1] step Inr k1 show ?thesis by simp
  qed
qed

lemma loop_deletes:
  assumes "\<forall>g\<in>set names. Number_toString (parseInt g) = g"
    and "distinct names"
    and "f \<in> set names"
    and "map_of (files w) f = Some (Json r)"
    and "find (\<lambda>q. Number (ps_pid q) = parseInt f) procs = Some fp"
    and "ps_cmd fp \<noteq> cmd r"
    and "getDetachedInstances_loop procs names acc w = (Inr insts, w')"
  shows "f \<notin> fst ` set (files w')"
  using assms
proof (induction names arbitrary: acc w)
  case Nil
  then show ?case by simp
next
  case (Cons g names)
  obtain res w1 where step: "getDetachedInstances_file procs g acc w = (res, w1)"
    by (cases "getDetachedInstances_file procs g acc w")
  with Cons.prems(7) obtain acc1 where res: "res = Inr acc1"
    and rest: "getDetachedInstances_loop procs names acc1 w1 = (Inr insts, w')"
    by (cases res) auto
  have canon: "Number_toString (parseInt g) = g" using Cons.prems(1) by simp
  show ?case
  proof (cases "g = f")
    case True
    have "files w1 = AList.delete f (files w)"
      using step Cons.prems(4,5,6) canon True
      by (auto simp: getDetachedInstances_file_def readFileSync_def removeDetachedInstanceFile_world)
    then have "f \<notin> fst ` set (files w1)" by (simp add: AList.delete_notin_dom)
    moreover have "set (files w') \<subseteq> set (files w1)"
      using loop_files_subset [of procs names acc1 w1] rest by simp
    ultimately show ?thesis by auto
  next
    case False
    with Cons.prems(3) have mem: "f \<in> set names" by simp
    from False have "f \<noteq> g" by simp
    from file_step_other_file [OF canon this, of procs acc w] step Cons.prems(4)
    have rd: "map_of (files w1) f = Some (Json r)" by simp
    from Cons.prems have "\<forall>g\<in>set names. Number_toString (parseInt g) = g" "distinct names"
      by simp_all
    from Cons.IH [OF this mem rd Cons.prems(5,6) rest] show ?thesis .
  qed
qed

text \<open>
  A pass that is not cut short. In a registry that satisfies its invariant, let the
  file \<open>f\<close> hold the record \<open>r\<close>,
  and let the process table have a process with the pid of \<open>r\<close> whose command line is
  not the \<open>cmd\<close> of \<open>r\<close>. Then a pass of \<open>getDetachedInstances\<close> makes no call of
  \<open>process.kill\<close> on that pid, and the pass that returns a list returns one without \<open>r\<close>
  and leaves no file \<open>f\<close>. The pass does return a list when \<open>process.kill\<close> throws on
  none of the pids that the file names stand for.
\<close>

theorem list_evicts_reused_pid:
  assumes wf: "registry_wf w"
    and rd: "readFileSync f w = Some (Json r)"
    and live: "find (\<lambda>q. ps_pid q = pid r) (psList w) = Some fp"
    and diff: "ps_cmd fp \<noteq> cmd r"
  shows "filter (\<lambda>k. fst k = Number (pid r)) (kills (snd (getDetachedInstances w)))
           = filter (\<lambda>k. fst k = Number (pid r)) (kills w)
         \<and> (\<forall>insts w'. getDetachedInstances w = (Inr insts, w')
               \<longrightarrow> r \<notin> set insts \<and> \<not> existsSync f w')
         \<and> ((\<forall>g\<in>set (readdirSync w). parseInt g \<notin> set (unkillable w))
               \<longrightarrow> (\<exists>insts w'. getDetachedInstances w = (Inr insts, w')))"
proof -
  from rd have mem: "(f, Json r) \<in> set (files w)"
    by (simp add: readFileSync_def map_of_SomeD)
  from registry_wf_entry [OF wf mem] have pf: "parseInt f = Number (pid r)"
    and cf: "Number_toString (parseInt f) = f" by auto
  have canon: "\<forall>g\<in>set (readdirSync w). Number_toString (parseInt g) = g"
    using wf by (auto simp: registry_wf_def list_all_iff readdirSync_def)
  have dist: "distinct (readdirSync w)"
    using wf by (simp add: registry_wf_def readdirSync_def)
  have live': "find (\<lambda>q. Number (ps_pid q) = parseInt f) (psList w) = Some fp"
    using live by (simp add: pf)
  have safe: "\<forall>g\<in>set (readdirSync w). parseInt g = Number (pid r)
                \<longrightarrow> (\<exists>r'. map_of (files w) g = Some (Json r'))"
  proof (intro ballI impI)
    fix g assume "g \<in> set (readdirSync w)" "parseInt g = Number (pid r)"
    with canon pf cf have "g = f" by metis
    with rd show "\<exists>r'. map_of (files w) g = Some (Json r')" by (simp add: readFileSync_def)
  qed
  have kills: "filter (\<lambda>k. fst k = Number (pid r)) (kills (snd (getDetachedInstances w)))
                 = filter (\<lambda>k. fst k = Number (pid r)) (kills w)"
    using loop_no_kill [OF canon dist safe, of "psList w" "[]"]
    by (auto simp: getDetachedInstances_def split: prod.splits sum.splits)
  have rest: "r \<notin> set insts \<and> \<not> existsSync f w'"
    if res: "getDetachedInstances w = (Inr insts, w')" for insts w'
  proof
    show "r \<notin> set insts"
    proof
      assume "r \<in> set insts"
      from getDetachedInstances_result [OF res this] obtain g fp' where
        g: "(g, Json r) \<in> set (files w)"
        and fp': "find (\<lambda>q. Number (ps_pid q) = parseInt g) (processes w) = Some fp'"
        and same: "ps_cmd fp' = cmd r" by blast
      from registry_wf_entry(3) [OF wf g] have "parseInt g = Number (pid r)" by simp
      with fp' live have "fp' = fp" by (simp add: psList_def)
      with same diff show False by simp
    qed
    from res obtain raw where
      loop: "getDetachedInstances_loop (psList w) (readdirSync w) [] w = (Inr raw, w')"
      by (auto simp: getDetachedInstances_def split: prod.splits sum.splits)
    have "f \<in> set (readdirSync w)" using mem by (force simp: readdirSync_def)
    from loop_deletes [OF canon dist this rd [unfolded readFileSync_def] live' diff loop]
    show "\<not> existsSync f w'" by (simp add: existsSync_def)
  qed
  from kills rest getDetachedInstances_returns [of w] show ?thesis by blast
qed

theorem list_evicts_reused_pid_witness:
  "registry_wf pid_reused
   \<and> readFileSync ''5'' pid_reused = Some (Json amber)
   \<and> find (\<lambda>q. ps_pid q = pid amber) (psList pid_reused)
       = Some \<lparr>ps_pid = 5, ps_cmd = ''vim notes.txt''\<rparr>
   \<and> ''vim notes.txt'' \<noteq> cmd amber
   \<and> getDetachedInstances pid_reused = (Inr [birch], pid_reused\<lparr>files := [(''7'', Json birch)]\<rparr>)
   \<and> amber \<notin> set [birch]
   \<and> \<not> existsSync ''5'' (pid_reused\<lparr>files := [(''7'', Json birch)]\<rparr>)
   \<and> filter (\<lambda>k. fst k = Number (pid amber)) (kills (snd (getDetachedInstances pid_reused))) = []"
proof -
  have wf: "registry_wf pid_reused" by code_simp
  have rd: "readFileSync ''5'' pid_reused = Some (Json amber)" by code_simp
  have live: "find (\<lambda>q. ps_pid q = pid amber) (psList pid_reused)
       = Some \<lparr>ps_pid = 5, ps_cmd = ''vim notes.txt''\<rparr>" by code_simp
  have diff: "ps_cmd \<lparr>ps_pid = 5, ps_cmd = ''vim notes.txt''\<rparr> \<noteq> cmd amber" by code_simp
  have res: "getDetachedInstances pid_reused
       = (Inr [birch], pid_reused\<lparr>files := [(''7'', Json birch)]\<rparr>)" by code_simp
  have k0: "kills pid_reused = []" by code_simp
  from list_evicts_reused_pid [OF wf rd live diff] res k0 wf rd live diff
  show ?thesis by simp
qed

text \<open>
  C2 fails on this registry, through the exception that leaves the pass at a corrupt
  record: the file \<open>5\<close> holds the record of \<open>amber_owl\<close>, pid 5 belongs to a live process
  with another command line, and the registry satisfies its invariant. The pass ends
  at the file \<open>3\<close>, listed first, with the exception of \<open>process.kill\<close>; the file \<open>5\<close> is
  never visited and still holds the record. No signal goes to pid 5.
\<close>

theorem list_aborts_before_reused_pid:
  "registry_wf corrupt_before_reused
   \<and> readFileSync ''5'' corrupt_before_reused = Some (Json amber)
   \<and> find (\<lambda>q. ps_pid q = pid amber) (psList corrupt_before_reused)
       = Some \<lparr>ps_pid = 5, ps_cmd = ''vim notes.txt''\<rparr>
   \<and> ''vim notes.txt'' \<noteq> cmd amber
   \<and> fst (getDetachedInstances corrupt_before_reused) = Inl (SystemError (Number 3))
   \<and> readFileSync ''5'' (snd (getDetachedInstances corrupt_before_reused)) = Some (Json amber)
   \<and> kills (snd (getDetachedInstances corrupt_before_reused)) = [(Number 3, False)]"
  by code_simp

section \<open>A corrupt record\<close>

text \<open>
  The step of the pass at a file that does not parse while a process has its pid:
  the warning is logged and \<open>process.kill\<close> is called; when the signal is delivered the
  file is removed and the pass goes on, when \<open>process.kill\<close> throws the pass ends there
  with the exception and the file stays.
\<close>

lemma corrupt_record_signalled:
  assumes "find (\<lambda>q. Number (ps_pid q) = parseInt g) procs = Some fp"
    and "readFileSync g w = Some (Corrupt bytes)"
    and "parseInt g \<notin> set (unkillable w)"
  shows "getDetachedInstances_file procs g acc w
         = (Inr acc,
            w\<lparr>stderr := stderr w @ [''Instance data corrupted. Process has been killed (PID ''
                                       @ Number_toString (parseInt g) @ '')''],
              kills := kills w @ [(parseInt g, True)],
              files := AList.delete (Number_toString (parseInt g)) (files w)\<rparr>)"
  using assms
  by (simp add: getDetachedInstances_file_def Let_def process_kill_def console_error_def
        removeDetachedInstanceFile_world)

lemma corrupt_record_throws:
  assumes "find (\<lambda>q. Number (ps_pid q) = parseInt g) procs = Some fp"
    and "readFileSync g w = Some (Corrupt bytes)"
    and "parseInt g \<in> set (unkillable w)"
  shows "getDetachedInstances_file procs g acc w
         = (Inl (SystemError (parseInt g)),
            w\<lparr>stderr := stderr w @ [''Instance data corrupted. Process has been killed (PID ''
                                       @ Number_toString (parseInt g) @ '')''],
              kills := kills w @ [(parseInt g, False)]\<rparr>)"
  using assms
  by (simp add: getDetachedInstances_file_def Let_def process_kill_def console_error_def)

text \<open>
  C7 fails on this registry: the file \<open>5\<close> does not parse, a live process has pid 5,
  and \<open>process.kill\<close> throws on it. The warning is logged, no signal is delivered, the
  exception leaves \<open>getDetachedInstances\<close>, and the file is still there.
\<close>

theorem list_fails_on_corrupt_record:
  "readFileSync ''5'' corrupt_unkillable = Some (Corrupt ''{ins'')
   \<and> find (\<lambda>q. Number (ps_pid q) = parseInt ''5'') (psList corrupt_unkillable)
       = Some \<lparr>ps_pid = 5, ps_cmd = ''postgres''\<rparr>
   \<and> fst (getDetachedInstances corrupt_unkillable) = Inl (SystemError (Number 5))
   \<and> existsSync ''5'' (snd (getDetachedInstances corrupt_unkillable))
   \<and> kills (snd (getDetachedInstances corrupt_unkillable)) = [(Number 5, False)]
   \<and> stderr (snd (getDetachedInstances corrupt_unkillable))
       = [''Instance data corrupted. Process has been killed (PID 5)'']"
  by code_simp

section \<open>The name loop\<close>

lemma instanceName_loop_finds:
  "createInstanceName (calls + k) \<notin> set instanceNames
   \<Longrightarrow> \<exists>name. instanceName_loop createInstanceName instanceNames calls = Some name
            \<and> name \<notin> set instanceNames"
proof (induction k arbitrary: calls)
  case 0
  then show ?case by (simp add: instanceName_loop.simps)
next
  case (Suc k)
  show ?case
  proof (cases "createInstanceName calls \<in> set instanceNames")
    case True
    from Suc.prems have "createInstanceName (Suc calls + k) \<notin> set instanceNames" by simp
    from Suc.IH [OF this] True show ?thesis
      by (subst instanceName_loop.simps) simp
  next
    case False
    then show ?thesis by (subst instanceName_loop.simps) simp
  qed
qed

text \<open>
  C10. The names in use are the finite list \<open>instanceNames\<close>; the namespace of the
  generator is what it draws. When the names in use do not exhaust it, that is, when
  some draw is not in use, the loop of \<open>startDetachedInstance\<close> ends and returns a
  name that is not in use.
\<close>

theorem name_loop_returns_unused_name:
  assumes "\<exists>i. createInstanceName i \<notin> set instanceNames"
  shows "\<exists>name. instanceName_loop createInstanceName instanceNames 0 = Some name
                 \<and> name \<notin> set instanceNames"
proof -
  from assms obtain i where "createInstanceName (0 + i) \<notin> set instanceNames" by auto
  then show ?thesis by (rule instanceName_loop_finds)
qed

theorem name_loop_returns_unused_name_witness:
  "(if (2::nat) < 2 then ''amber_owl'' else ''cedar_elk'') \<notin> set [''amber_owl'', ''birch_fox'']
   \<and> (\<exists>name. instanceName_loop (\<lambda>i. if i < 2 then ''amber_owl'' else ''cedar_elk'')
                 [''amber_owl'', ''birch_fox''] 0 = Some name
              \<and> name \<notin> set [''amber_owl'', ''birch_fox''])"
proof -
  have h: "\<exists>i::nat. (if i < 2 then ''amber_owl'' else ''cedar_elk'')
                       \<notin> set [''amber_owl'', ''birch_fox'']"
    by (rule exI [of _ 2]) simp
  from name_loop_returns_unused_name [of "\<lambda>i. if i < 2 then ''amber_owl'' else ''cedar_elk''", OF h]
  show ?thesis by simp
qed

section \<open>Starting an instance\<close>

lemma awaitReady_files:
  "awaitReady events w = Some (res, w') \<Longrightarrow> files w' = files w"
  by (induction events w rule: awaitReady.induct)
     (auto simp: console_error_def split: if_splits)

lemma awaitReady_outcome:
  "map_option fst (awaitReady events w) = map_option fst (awaitReady events w0)"
  by (induction events w rule: awaitReady.induct) auto

lemma fork_frame: "files (fork m a w) = files w" "processes (fork m a w) = processes w"
  by (simp_all add: fork_def)

lemma writeFileSync_read:
  "readFileSync f (writeFileSync f c w) = Some c"
  by (simp add: readFileSync_def writeFileSync_def AList.update_conv')

lemma start_outcomes:
  assumes "startDetachedInstance gen cp events now m args ver w = Some (res, w')"
  shows "(\<exists>e. res = Inl e \<and> set (files w') \<subseteq> set (files w))
         \<or> (\<exists>inst w3. res = Inr inst \<and> pid inst = cp
               \<and> map_option fst (awaitReady events w) = Some (Inr ())
               \<and> set (files w3) \<subseteq> set (files w)
               \<and> w' = writeFileSync (Number_toString (Number cp)) (Json inst) w3)"
proof (cases "getprop args ''flavor''")
  case (Inl e)
  with assms show ?thesis by (auto simp: startDetachedInstance_def)
next
  case (Inr fl)
  let ?w1 = "fork m (createFlatChildArgs args) w"
  show ?thesis
  proof (cases "find (\<lambda>p. ps_pid p = cp) (psList ?w1)")
    case None
    with assms Inr show ?thesis
      by (auto simp: startDetachedInstance_def Let_def fork_frame)
  next
    case (Some cproc)
    obtain lres w2 where l: "getDetachedInstances ?w1 = (lres, w2)"
      by (cases "getDetachedInstances ?w1")
    have sub2: "set (files w2) \<subseteq> set (files w)"
      using getDetachedInstances_files_subset [of ?w1] l by (simp add: fork_frame)
    show ?thesis
    proof (cases lres)
      case (Inl e)
      with assms Inr Some l sub2 show ?thesis
        by (auto simp: startDetachedInstance_def Let_def)
    next
      case insts: (Inr insts)
      from assms Inr Some l insts obtain name where
        nm: "instanceName_loop gen (map instanceName insts) 0 = Some name"
        by (auto simp: startDetachedInstance_def Let_def split: option.splits)
      from assms Inr Some l insts nm obtain ares w3 where
        aw: "awaitReady events w2 = Some (ares, w3)"
        by (auto simp: startDetachedInstance_def Let_def split: option.splits)
      have f3: "files w3 = files w2" by (rule awaitReady_files [OF aw])
      have out: "map_option fst (awaitReady events w) = Some ares"
        using awaitReady_outcome [of events w w2] aw by simp
      show ?thesis
      proof (cases ares)
        case (Inl e)
        with assms Inr Some l insts nm aw sub2 f3 show ?thesis
          by (auto simp: startDetachedInstance_def Let_def)
      next
        case ready: (Inr u)
        with assms \<open>getprop args ''flavor'' = Inr fl\<close> Some l insts nm aw
        have "(\<exists>e. res = Inl e \<and> w' = w3)
              \<or> (\<exists>inst. res = Inr inst \<and> pid inst = cp
                    \<and> w' = writeFileSync (Number_toString (Number cp)) (Json inst) w3)"
          by (auto simp del: Number_toString.simps simp: startDetachedInstance_def Let_def
              split: sum.splits)
        then show ?thesis
        proof
          assume "\<exists>e. res = Inl e \<and> w' = w3"
          with sub2 f3 show ?thesis by auto
        next
          assume "\<exists>inst. res = Inr inst \<and> pid inst = cp
                    \<and> w' = writeFileSync (Number_toString (Number cp)) (Json inst) w3"
          then obtain inst where "res = Inr inst" "pid inst = cp"
            "w' = writeFileSync (Number_toString (Number cp)) (Json inst) w3" by blast
          moreover have "set (files w3) \<subseteq> set (files w)" using sub2 f3 by simp
          moreover have "map_option fst (awaitReady events w) = Some (Inr ())"
            using out ready by simp
          ultimately show ?thesis by blast
        qed
      qed
    qed
  qed
qed

lemma start_returns:
  assumes fresh: "\<exists>i. \<forall>f r. (f, Json r) \<in> set (files w) \<longrightarrow> instanceName r \<noteq> gen i"
    and settles: "awaitReady events w \<noteq> None"
  shows "startDetachedInstance gen cp events now m args ver w \<noteq> None"
proof (cases "getprop args ''flavor''")
  case (Inl e)
  then show ?thesis by (simp add: startDetachedInstance_def)
next
  case (Inr fl)
  let ?w1 = "fork m (createFlatChildArgs args) w"
  show ?thesis
  proof (cases "find (\<lambda>p. ps_pid p = cp) (psList ?w1)")
    case None
    with Inr show ?thesis by (simp add: startDetachedInstance_def Let_def)
  next
    case (Some cproc)
    obtain lres w2 where l: "getDetachedInstances ?w1 = (lres, w2)"
      by (cases "getDetachedInstances ?w1")
    show ?thesis
    proof (cases lres)
      case (Inl e)
      with Inr Some l show ?thesis by (simp add: startDetachedInstance_def Let_def)
    next
      case insts: (Inr insts)
      from fresh obtain i where i: "\<forall>f r. (f, Json r) \<in> set (files w) \<longrightarrow> instanceName r \<noteq> gen i"
        by blast
      have "gen (0 + i) \<notin> set (map instanceName insts)"
      proof
        assume "gen (0 + i) \<in> set (map instanceName insts)"
        then obtain r where r: "r \<in> set insts" "instanceName r = gen i" by auto
        from getDetachedInstances_result [OF l [unfolded insts] r(1)]
        obtain g where "(g, Json r) \<in> set (files w)" by (auto simp: fork_frame)
        with i r(2) show False by blast
      qed
      from instanceName_loop_finds [of gen 0 i "map instanceName insts", OF this] obtain name where
        nm: "instanceName_loop gen (map instanceName insts) 0 = Some name" by blast
      from settles awaitReady_outcome [of events w w2] obtain ares w3 where
        aw: "awaitReady events w2 = Some (ares, w3)"
        by (cases "awaitReady events w2") auto
      from Inr Some l insts nm aw show ?thesis
        by (auto simp: startDetachedInstance_def Let_def split: sum.splits)
    qed
  qed
qed

text \<open>What the events make of the promise.\<close>

lemma awaitReady_skips:
  "list_all leaves_pending pre \<Longrightarrow> awaitReady (pre @ events) w = awaitReady events w"
proof (induction pre)
  case Nil
  then show ?case by simp
next
  case (Cons e pre)
  then show ?case by (cases e) simp_all
qed

lemma awaitReady_error:
  assumes "list_all leaves_pending pre"
  shows "awaitReady (pre @ OnError message # rest) w
         = Some (Inl (LaunchError message),
                 (console_error (START_ERROR @ newline @ message) w)\<lparr>exitCode := JNum ''1''\<rparr>)"
  by (simp add: awaitReady_skips [OF assms])

lemma awaitReady_exit:
  assumes "list_all leaves_pending pre"
  shows "awaitReady (pre @ OnExit code # rest) w
         = Some (Inl (Error (START_ERROR @ newline
                              @ ''The detached instance exited with error code: ''
                              @ ToString code)),
                 w\<lparr>exitCode := (if code = JNum ''0'' then JNum ''1'' else code)\<rparr>)"
  by (simp add: awaitReady_skips [OF assms])

lemma awaitReady_resolved:
  assumes "awaitReady events w = Some (Inr u, w')"
  shows "\<exists>pre rest. events = pre @ OnMessage READY_MESSAGE # rest \<and> list_all leaves_pending pre"
  using assms
proof (induction events)
  case Nil
  then show ?case by simp
next
  case (Cons e events)
  show ?case
  proof (cases e)
    case (OnMessage message)
    show ?thesis
    proof (cases "message = READY_MESSAGE")
      case True
      with OnMessage have "e # events = [] @ OnMessage READY_MESSAGE # events" by simp
      moreover have "list_all leaves_pending []" by simp
      ultimately show ?thesis by blast
    next
      case False
      with Cons.prems OnMessage have "awaitReady events w = Some (Inr u, w')" by simp
      from Cons.IH [OF this] obtain pre rest where
        "events = pre @ OnMessage READY_MESSAGE # rest" "list_all leaves_pending pre" by blast
      with False OnMessage have "e # events = (e # pre) @ OnMessage READY_MESSAGE # rest"
        "list_all leaves_pending (e # pre)" by simp_all
      then show ?thesis by blast
    qed
  next
    case (OnError message)
    with Cons.prems show ?thesis by simp
  next
    case (OnExit code)
    with Cons.prems show ?thesis by simp
  qed
qed

lemma start_ready_first:
  assumes "startDetachedInstance gen cp events now m args ver w = Some (Inr inst, w')"
  shows "\<exists>pre rest. events = pre @ OnMessage READY_MESSAGE # rest \<and> list_all leaves_pending pre"
proof -
  from start_outcomes [OF assms]
  have "map_option fst (awaitReady events w) = Some (Inr ())" by auto
  then obtain w1 where "awaitReady events w = Some (Inr (), w1)"
    by (cases "awaitReady events w") auto
  then show ?thesis by (rule awaitReady_resolved)
qed

lemma start_rejected:
  assumes fresh: "\<exists>i. \<forall>f r. (f, Json r) \<in> set (files w) \<longrightarrow> instanceName r \<noteq> gen i"
    and rej: "awaitReady events w = Some (Inl err, w0)"
  shows "\<exists>e w'. startDetachedInstance gen cp events now m args ver w = Some (Inl e, w')
                  \<and> set (files w') \<subseteq> set (files w)"
proof -
  from rej have "awaitReady events w \<noteq> None" by simp
  from start_returns [OF fresh this, of cp now m args ver]
  obtain res w' where s: "startDetachedInstance gen cp events now m args ver w = Some (res, w')"
    by auto
  from rej have "map_option fst (awaitReady events w) \<noteq> Some (Inr ())" by simp
  with start_outcomes [OF s]
  have "\<exists>e. res = Inl e \<and> set (files w') \<subseteq> set (files w)" by auto
  with s show ?thesis by blast
qed

text \<open>
  C3. The record is written only after the handshake has succeeded.
  \<^item> When the first event that is not a message other than \<open>"ready"\<close> is an \<open>"error"\<close>
    event or an \<open>"exit"\<close> event, and the generator draws some name that no stored record
    carries, \<open>startDetachedInstance\<close> returns, with an error, and the registry holds no
    file that it did not hold before, with no file changed.
  \<^item> Whenever it returns a record, a \<open>"ready"\<close> message came before any \<open>"error"\<close> or
    \<open>"exit"\<close> event, and the file named by the pid of the child holds that record.
  \<^item> Whenever it returns an error, no file is created or changed.
\<close>

theorem start_persists_after_ready:
  "(\<forall>pre message rest.
      events = pre @ OnError message # rest \<and> list_all leaves_pending pre
      \<and> (\<exists>i. \<forall>f r. (f, Json r) \<in> set (files w) \<longrightarrow> instanceName r \<noteq> gen i)
      \<longrightarrow> (\<exists>e w'. startDetachedInstance gen cp events now m args ver w = Some (Inl e, w')
                   \<and> set (files w') \<subseteq> set (files w)))
   \<and> (\<forall>pre code rest.
      events = pre @ OnExit code # rest \<and> list_all leaves_pending pre
      \<and> (\<exists>i. \<forall>f r. (f, Json r) \<in> set (files w) \<longrightarrow> instanceName r \<noteq> gen i)
      \<longrightarrow> (\<exists>e w'. startDetachedInstance gen cp events now m args ver w = Some (Inl e, w')
                   \<and> set (files w') \<subseteq> set (files w)))
   \<and> (\<forall>inst w'. startDetachedInstance gen cp events now m args ver w = Some (Inr inst, w')
      \<longrightarrow> (\<exists>pre rest. events = pre @ OnMessage READY_MESSAGE # rest
                       \<and> list_all leaves_pending pre)
          \<and> pid inst = cp
          \<and> readFileSync (Number_toString (Number cp)) w' = Some (Json inst))
   \<and> (\<forall>e w'. startDetachedInstance gen cp events now m args ver w = Some (Inl e, w')
      \<longrightarrow> set (files w') \<subseteq> set (files w))"
proof (intro conjI allI impI)
  fix pre message rest
  assume a: "events = pre @ OnError message # rest \<and> list_all leaves_pending pre
      \<and> (\<exists>i. \<forall>f r. (f, Json r) \<in> set (files w) \<longrightarrow> instanceName r \<noteq> gen i)"
  then have "awaitReady events w
         = Some (Inl (LaunchError message),
                 (console_error (START_ERROR @ newline @ message) w)\<lparr>exitCode := JNum ''1''\<rparr>)"
    by (simp add: awaitReady_error)
  with a start_rejected [of w gen events]
  show "\<exists>e w'. startDetachedInstance gen cp events now m args ver w = Some (Inl e, w')
                   \<and> set (files w') \<subseteq> set (files w)" by blast
next
  fix pre code rest
  assume a: "events = pre @ OnExit code # rest \<and> list_all leaves_pending pre
      \<and> (\<exists>i. \<forall>f r. (f, Json r) \<in> set (files w) \<longrightarrow> instanceName r \<noteq> gen i)"
  then have "awaitReady events w
         = Some (Inl (Error (START_ERROR @ newline
                              @ ''The detached instance exited with error code: ''
                              @ ToString code)),
                 w\<lparr>exitCode := (if code = JNum ''0'' then JNum ''1'' else code)\<rparr>)"
    by (simp add: awaitReady_exit)
  with a start_rejected [of w gen events]
  show "\<exists>e w'. startDetachedInstance gen cp events now m args ver w = Some (Inl e, w')
                   \<and> set (files w') \<subseteq> set (files w)" by blast
next
  fix inst w'
  assume a: "startDetachedInstance gen cp events now m args ver w = Some (Inr inst, w')"
  from start_ready_first [OF a]
  show "\<exists>pre rest. events = pre @ OnMessage READY_MESSAGE # rest \<and> list_all leaves_pending pre" .
  from start_outcomes [OF a] obtain w3 where
    "pid inst = cp" "w' = writeFileSync (Number_toString (Number cp)) (Json inst) w3" by auto
  then show "pid inst = cp" "readFileSync (Number_toString (Number cp)) w' = Some (Json inst)"
    by (simp_all only: writeFileSync_read)
next
  fix e w'
  assume "startDetachedInstance gen cp events now m args ver w = Some (Inl e, w')"
  from start_outcomes [OF this] show "set (files w') \<subseteq> set (files w)" by auto
qed

theorem start_persists_after_ready_witness:
  "list_all leaves_pending [OnMessage ''starting'']
   \<and> ''cedar_elk'' \<notin> set (map instanceName [amber, birch])
   \<and> startDetachedInstance draws 9 ([OnMessage ''starting''] @ OnError ''spawn ENOENT'' # [])
        30 ''ganache'' start_args ''7.0.0'' spawning
       = Some (Inl (LaunchError ''spawn ENOENT''),
               spawned\<lparr>stderr := [START_ERROR @ newline @ ''spawn ENOENT''],
                        exitCode := JNum ''1''\<rparr>)
   \<and> startDetachedInstance draws 9 ([OnMessage ''starting''] @ OnExit (JNum ''0'') # [])
        30 ''ganache'' start_args ''7.0.0'' spawning
       = Some (Inl (Error (START_ERROR @ newline
                            @ ''The detached instance exited with error code: 0'')),
               spawned\<lparr>exitCode := JNum ''1''\<rparr>)
   \<and> files spawned = files spawning
   \<and> startDetachedInstance draws 9 [OnMessage ''starting'', OnMessage ''ready'']
        30 ''ganache'' start_args ''7.0.0'' spawning
       = Some (Inr cedar, writeFileSync ''9'' (Json cedar) spawned)
   \<and> readFileSync ''9'' (writeFileSync ''9'' (Json cedar) spawned) = Some (Json cedar)"
proof -
  let ?err = "[OnMessage ''starting''] @ OnError ''spawn ENOENT'' # []"
  let ?exit = "[OnMessage ''starting''] @ OnExit (JNum ''0'') # []"
  let ?ok = "[OnMessage ''starting'', OnMessage ''ready'']"
  have pend: "list_all leaves_pending [OnMessage ''starting'']"
    by (simp add: READY_MESSAGE_def)
  have f2: "\<exists>i. \<forall>f r. (f, Json r) \<in> set (files spawning) \<longrightarrow> instanceName r \<noteq> draws i"
    by (rule exI [of _ 2]) (auto simp: spawning_def amber_def birch_def draws_def)
  have f3: "''cedar_elk'' \<notin> set (map instanceName [amber, birch])"
    by (simp add: amber_def birch_def)
  have fl: "createFlatChildArgs start_args
              = [JStr ''ethereum'', JStr ''--server.host=127.0.0.1'', JStr ''--server.port=8547'']"
    by (simp add: createFlatChildArgs_def start_args_def)
  have fk: "fork ''ganache''
              [JStr ''ethereum'', JStr ''--server.host=127.0.0.1'', JStr ''--server.port=8547'']
              spawning = spawned"
    by (simp add: fork_def spawned_def spawning_def)
  have g: "getDetachedInstances spawned = (Inr [birch, amber], spawned)" by code_simp
  have c: "find (\<lambda>p. ps_pid p = 9) (psList spawned)
             = Some \<lparr>ps_pid = 9, ps_cmd = ''node ganache --server.port=8547''\<rparr>" by code_simp
  have n: "instanceName_loop draws [''birch_fox'', ''amber_owl''] 0 = Some ''cedar_elk''"
    by code_simp
  have nine: "Number_toString (Number 9) = ''9''" by code_simp
  have p: "getprop start_args ''flavor'' = Inr (JStr ''ethereum'')"
    "getprop start_args ''server''
       = Inr (JObj [(''host'', JStr ''127.0.0.1''), (''port'', JNum ''8547'')])"
    by (simp_all add: start_args_def)
  have st: "stderr spawned = []" by (simp add: spawned_def)
  have fs: "files spawned = files spawning" by (simp add: spawned_def spawning_def)
  have err: "startDetachedInstance draws 9 ?err 30 ''ganache'' start_args ''7.0.0'' spawning
       = Some (Inl (LaunchError ''spawn ENOENT''),
               spawned\<lparr>stderr := [START_ERROR @ newline @ ''spawn ENOENT''],
                        exitCode := JNum ''1''\<rparr>)"
    by (simp add: startDetachedInstance_def Let_def fl fk g c n p READY_MESSAGE_def
          console_error_def st amber_def birch_def)
  have exit: "startDetachedInstance draws 9 ?exit 30 ''ganache'' start_args ''7.0.0'' spawning
       = Some (Inl (Error (START_ERROR @ newline
                            @ ''The detached instance exited with error code: 0'')),
               spawned\<lparr>exitCode := JNum ''1''\<rparr>)"
    by (simp add: startDetachedInstance_def Let_def fl fk g c n p READY_MESSAGE_def
          amber_def birch_def)
  have ok: "startDetachedInstance draws 9 ?ok 30 ''ganache'' start_args ''7.0.0'' spawning
              = Some (Inr cedar, writeFileSync ''9'' (Json cedar) spawned)"
    by (simp add: startDetachedInstance_def Let_def fl fk g c n p READY_MESSAGE_def
          amber_def birch_def cedar_def digits.simps digit_char_def)
  note thm_err = start_persists_after_ready
    [of ?err spawning draws 9 30 "''ganache''" start_args "''7.0.0''"]
  note thm_exit = start_persists_after_ready
    [of ?exit spawning draws 9 30 "''ganache''" start_args "''7.0.0''"]
  note thm_ok = start_persists_after_ready
    [of ?ok spawning draws 9 30 "''ganache''" start_args "''7.0.0''"]
  from thm_err pend f2
  have "\<exists>e w'. startDetachedInstance draws 9 ?err 30 ''ganache'' start_args ''7.0.0'' spawning
                  = Some (Inl e, w') \<and> set (files w') \<subseteq> set (files spawning)"
    by blast
  moreover from thm_exit pend f2
  have "\<exists>e w'. startDetachedInstance draws 9 ?exit 30 ''ganache'' start_args ''7.0.0'' spawning
                  = Some (Inl e, w') \<and> set (files w') \<subseteq> set (files spawning)"
    by blast
  moreover from thm_ok ok nine
  have rd: "readFileSync ''9'' (writeFileSync ''9'' (Json cedar) spawned) = Some (Json cedar)"
    by simp
  ultimately show ?thesis using pend f3 err exit fs ok by blast
qed

section \<open>Flattening\<close>

lemma flag_inside:
  "map (flag prefix) (filter not_null (map (apfst ((#) key)) bs))
   = map (flag (prefix @ key @ ''.'')) (filter not_null bs)"
  by (induction bs) (auto simp: flag_def not_null_def dotted_def)

lemma flatten_structure:
  "flatten ns v acc
     = (case v of
          JObj kvs \<Rightarrow> rev (flavor_values kvs) @ acc
                       @ map (flag (case ns of None \<Rightarrow> [] | Some n \<Rightarrow> n @ ''.''))
                             (filter not_null (bindings kvs))
        | _ \<Rightarrow> acc)"
  "flatten_keys prefix kvs acc
     = rev (flavor_values kvs) @ acc @ map (flag prefix) (filter not_null (bindings kvs))"
proof (induction ns v acc and prefix kvs acc rule: flatten_flatten_keys.induct)
  case (8 prefix key val rest flattenedArgs)
  show ?case
  proof (cases "key = ''flavor''")
    case True
    with 8(2) show ?thesis by simp
  next
    case nf: False
    show ?thesis
    proof (cases "key = ''action''")
      case True
      with nf 8(2) show ?thesis by simp
    next
      case na: False
      show ?thesis
      proof (cases val)
        case (JObj inner)
        with nf na 8(1) 8(2) show ?thesis by (simp add: flag_inside)
      next
        case JNull
        with nf na 8(1) 8(2) show ?thesis by (simp add: not_null_def)
      qed (use nf na 8(2) in \<open>simp_all add: flag_def not_null_def dotted_def\<close>)
    qed
  qed
qed simp_all

lemma createFlatChildArgs_structure:
  "createFlatChildArgs (JObj obj)
     = rev (flavor_values obj) @ map (flag []) (filter not_null (bindings obj))"
  by (simp add: createFlatChildArgs_def flatten_structure(2))

lemma flavor_values_append: "flavor_values (xs @ ys) = flavor_values xs @ flavor_values ys"
  by (induction xs rule: flavor_values.induct) auto

lemma bindings_append: "bindings (xs @ ys) = bindings xs @ bindings ys"
  by (induction xs rule: bindings.induct) auto

lemma bindings_binds:
  "(path, key, val) \<in> set (bindings obj)
   \<Longrightarrow> binds obj path key val \<and> key \<noteq> ''flavor'' \<and> key \<noteq> ''action'' \<and> is_scalar val"
proof (induction obj arbitrary: path rule: bindings.induct)
  case 1
  then show ?case by simp
next
  case (2 k v rest)
  from "2.prems" consider
      (head) "k \<noteq> ''flavor''" "k \<noteq> ''action''"
        "(path, key, val) \<in> set (case v of JObj inner \<Rightarrow> map (apfst ((#) k)) (bindings inner)
                                     | _ \<Rightarrow> [([], k, v)])"
    | (tail) "(path, key, val) \<in> set (bindings rest)"
    by (auto split: if_splits)
  then show ?case
  proof cases
    case head
    show ?thesis
    proof (cases v)
      case (JObj inner)
      with head(3) obtain path' where p: "path = k # path'"
        "(path', key, val) \<in> set (bindings inner)" by auto
      from "2.IH"(1) [OF _ JObj p(2)] head(1,2)
      have "binds inner path' key val \<and> key \<noteq> ''flavor'' \<and> key \<noteq> ''action'' \<and> is_scalar val"
        by simp
      with p(1) head(1,2) JObj show ?thesis
        by (auto intro: binds.inside [of k inner])
    qed (use head in \<open>auto intro: binds.here\<close>)
  next
    case tail
    from "2.IH"(2) [OF tail]
    have b: "binds rest path key val" and r: "key \<noteq> ''flavor''" "key \<noteq> ''action''" "is_scalar val"
      by simp_all
    from b have "binds ((k, v) # rest) path key val"
      by (cases rule: binds.cases) (auto intro: binds.intros)
    with r show ?thesis by simp
  qed
qed

lemma bindings_here:
  assumes "(key, val) \<in> set obj" "key \<noteq> ''flavor''" "key \<noteq> ''action''" "is_scalar val"
  shows "([], key, val) \<in> set (bindings obj)"
  using assms(1)
proof (induction obj)
  case Nil
  then show ?case by simp
next
  case (Cons kv obj)
  show ?case
  proof (cases "kv = (key, val)")
    case True
    with assms(2,3,4) show ?thesis by (cases val) auto
  next
    case False
    with Cons have "([], key, val) \<in> set (bindings obj)" by simp
    then show ?thesis by (cases kv) simp
  qed
qed

lemma bindings_inside:
  assumes "(k, JObj inner) \<in> set obj" "k \<noteq> ''flavor''" "k \<noteq> ''action''"
    and "(path, key, val) \<in> set (bindings inner)"
  shows "(k # path, key, val) \<in> set (bindings obj)"
  using assms(1)
proof (induction obj)
  case Nil
  then show ?case by simp
next
  case (Cons kv obj)
  show ?case
  proof (cases "kv = (k, JObj inner)")
    case True
    have "(k # path, key, val) \<in> apfst ((#) k) ` set (bindings inner)"
      using assms(4) by (rule image_eqI [rotated]) simp
    with True assms(2,3) show ?thesis by simp
  next
    case False
    with Cons have "(k # path, key, val) \<in> set (bindings obj)" by simp
    then show ?thesis by (cases kv) simp
  qed
qed

lemma binds_bindings:
  assumes "binds obj path key val" "key \<noteq> ''flavor''" "key \<noteq> ''action''" "is_scalar val"
  shows "(path, key, val) \<in> set (bindings obj)"
  using assms
proof (induction rule: binds.induct)
  case (here key val obj)
  then show ?case by (simp add: bindings_here)
next
  case (inside k inner obj path key val)
  from inside.IH [OF inside.prems] have m: "(path, key, val) \<in> set (bindings inner)" .
  from bindings_inside [OF inside.hyps(1,2,3) m] show ?case .
qed

text \<open>
  C4. Flattening \<open>{flavor: "x", a: {b: 1}}\<close> gives exactly \<open>["x", "--a.b=1"]\<close>, and so it
  does when \<open>flavor\<close> is the last key and when \<open>action\<close> keys are added, bound to a string
  or to an object. In general: a \<open>flavor\<close> key of the configuration, wherever it stands
  among the keys, puts its value bare at the front of what the configuration without
  the key gives (no other \<open>flavor\<close> key being there), and leaves no flag; and an
  \<open>action\<close> key, at any depth and whatever it is bound to, changes nothing.
\<close>

theorem flatten_flavor_example:
  "createFlatChildArgs (JObj [(''flavor'', JStr ''x''), (''a'', JObj [(''b'', JNum ''1'')])])
     = [JStr ''x'', JStr ''--a.b=1'']
   \<and> createFlatChildArgs (JObj [(''a'', JObj [(''b'', JNum ''1'')]), (''flavor'', JStr ''x'')])
     = [JStr ''x'', JStr ''--a.b=1'']
   \<and> createFlatChildArgs
       (JObj [(''action'', JObj [(''c'', JNum ''2'')]), (''a'', JObj [(''b'', JNum ''1''),
              (''action'', JStr ''y'')]), (''flavor'', JStr ''x'')])
     = [JStr ''x'', JStr ''--a.b=1'']
   \<and> (\<forall>pre v post. flavor_values (pre @ post) = []
         \<longrightarrow> createFlatChildArgs (JObj (pre @ (''flavor'', v) # post))
             = v # createFlatChildArgs (JObj (pre @ post)))
   \<and> (\<forall>prefix pre v post acc.
         flatten_keys prefix (pre @ (''action'', v) # post) acc
         = flatten_keys prefix (pre @ post) acc)"
proof (intro conjI allI impI)
  show "createFlatChildArgs (JObj [(''flavor'', JStr ''x''), (''a'', JObj [(''b'', JNum ''1'')])])
     = [JStr ''x'', JStr ''--a.b=1'']"
    by code_simp
  show "createFlatChildArgs (JObj [(''a'', JObj [(''b'', JNum ''1'')]), (''flavor'', JStr ''x'')])
     = [JStr ''x'', JStr ''--a.b=1'']"
    by code_simp
  show "createFlatChildArgs
       (JObj [(''action'', JObj [(''c'', JNum ''2'')]), (''a'', JObj [(''b'', JNum ''1''),
              (''action'', JStr ''y'')]), (''flavor'', JStr ''x'')])
     = [JStr ''x'', JStr ''--a.b=1'']"
    by code_simp
next
  fix pre :: "(string \<times> jvalue) list" and v post
  assume "flavor_values (pre @ post) = []"
  then show "createFlatChildArgs (JObj (pre @ (''flavor'', v) # post))
             = v # createFlatChildArgs (JObj (pre @ post))"
    by (simp add: createFlatChildArgs_structure flavor_values_append bindings_append)
next
  fix prefix pre v post acc
  show "flatten_keys prefix (pre @ (''action'', v) # post) acc
         = flatten_keys prefix (pre @ post) acc"
    by (simp add: flatten_structure(2) flavor_values_append bindings_append)
qed

theorem flatten_flavor_example_witness:
  "flavor_values ([(''a'', JObj [(''b'', JNum ''1'')]), (''c'', JBool True)] @ [(''d'', JNull)]) = []
   \<and> createFlatChildArgs
       (JObj ([(''a'', JObj [(''b'', JNum ''1'')]), (''c'', JBool True)]
              @ (''flavor'', JStr ''x'') # [(''d'', JNull)]))
     = JStr ''x'' # createFlatChildArgs
         (JObj ([(''a'', JObj [(''b'', JNum ''1'')]), (''c'', JBool True)] @ [(''d'', JNull)]))
   \<and> createFlatChildArgs
         (JObj ([(''a'', JObj [(''b'', JNum ''1'')]), (''c'', JBool True)] @ [(''d'', JNull)]))
     = [JStr ''--a.b=1'', JStr ''--c=true'']"
proof -
  have h: "flavor_values ([(''a'', JObj [(''b'', JNum ''1'')]), (''c'', JBool True)]
                          @ [(''d'', JNull)]) = []"
    by simp
  have e: "createFlatChildArgs
         (JObj ([(''a'', JObj [(''b'', JNum ''1'')]), (''c'', JBool True)] @ [(''d'', JNull)]))
     = [JStr ''--a.b=1'', JStr ''--c=true'']"
    by code_simp
  from flatten_flavor_example h e show ?thesis by blast
qed

text \<open>
  C9, amended. Let \<open>key\<close> be bound to \<open>val\<close> inside the nested objects \<open>path\<close> of the
  configuration \<open>obj\<close>, with \<open>key\<close> neither \<open>flavor\<close> nor \<open>action\<close> nor under such a key, and
  \<open>val\<close> a scalar other than \<open>null\<close>. Then the token \<open>--{prefix}{key}={val}\<close>, with the dotted
  path as prefix, is in the flattened output. The output is the flavor values followed
  by exactly one such token for each such binding, in the order of the walk, and
  nothing else; and the bindings are the keys so bound and no others.
\<close>

theorem scalar_key_contributes_flag:
  assumes "binds obj path key val"
    and "key \<noteq> ''flavor''" and "key \<noteq> ''action''"
    and "is_scalar val" and "val \<noteq> JNull"
  shows "JStr (''--'' @ dotted path @ key @ ''='' @ ToString val)
           \<in> set (createFlatChildArgs (JObj obj))
         \<and> (path, key, val) \<in> set (filter not_null (bindings obj))
         \<and> createFlatChildArgs (JObj obj)
             = rev (flavor_values obj) @ map (flag []) (filter not_null (bindings obj))
         \<and> (\<forall>p k v. (p, k, v) \<in> set (bindings obj)
               \<longleftrightarrow> binds obj p k v \<and> k \<noteq> ''flavor'' \<and> k \<noteq> ''action'' \<and> is_scalar v)"
proof -
  have m: "(path, key, val) \<in> set (filter not_null (bindings obj))"
    using binds_bindings [OF assms(1,2,3,4)] assms(5) by (simp add: not_null_def)
  have s: "createFlatChildArgs (JObj obj)
             = rev (flavor_values obj) @ map (flag []) (filter not_null (bindings obj))"
    by (rule createFlatChildArgs_structure)
  have "flag [] (path, key, val) \<in> set (createFlatChildArgs (JObj obj))"
    unfolding s using m by (simp del: set_filter)
  then have t: "JStr (''--'' @ dotted path @ key @ ''='' @ ToString val)
           \<in> set (createFlatChildArgs (JObj obj))"
    by (simp add: flag_def)
  have e: "\<forall>p k v. (p, k, v) \<in> set (bindings obj)
               \<longleftrightarrow> binds obj p k v \<and> k \<noteq> ''flavor'' \<and> k \<noteq> ''action'' \<and> is_scalar v"
    using bindings_binds binds_bindings by blast
  from t m s e show ?thesis by blast
qed

theorem scalar_key_contributes_flag_witness:
  "binds [(''flavor'', JStr ''x''), (''a'', JObj [(''b'', JNum ''0.5'')])]
         [''a''] ''b'' (JNum ''0.5'')
   \<and> is_scalar (JNum ''0.5'')
   \<and> ''--'' @ dotted [''a''] @ ''b'' @ ''='' @ ToString (JNum ''0.5'') = ''--a.b=0.5''
   \<and> JStr ''--a.b=0.5''
       \<in> set (createFlatChildArgs
                (JObj [(''flavor'', JStr ''x''), (''a'', JObj [(''b'', JNum ''0.5'')])]))
   \<and> map (flag []) (filter not_null
         (bindings [(''flavor'', JStr ''x''), (''a'', JObj [(''b'', JNum ''0.5'')])]))
       = [JStr ''--a.b=0.5'']"
proof -
  have b: "binds [(''flavor'', JStr ''x''), (''a'', JObj [(''b'', JNum ''0.5'')])]
         [''a''] ''b'' (JNum ''0.5'')"
    by (rule binds.inside [of "''a''" "[(''b'', JNum ''0.5'')]"]) (simp_all add: binds.here)
  have k: "''b'' \<noteq> ''flavor''" "''b'' \<noteq> ''action''" by simp_all
  have s: "is_scalar (JNum ''0.5'')" "JNum ''0.5'' \<noteq> JNull" by simp_all
  have t: "''--'' @ dotted [''a''] @ ''b'' @ ''='' @ ToString (JNum ''0.5'') = ''--a.b=0.5''"
    by (simp add: dotted_def)
  have f: "map (flag []) (filter not_null
         (bindings [(''flavor'', JStr ''x''), (''a'', JObj [(''b'', JNum ''0.5'')])]))
       = [JStr ''--a.b=0.5'']"
    by (simp add: flag_def not_null_def dotted_def)
  from scalar_key_contributes_flag [OF b k s] b s(1) t f show ?thesis by simp
qed

text \<open>
  C9 as stated fails in three ways. In \<open>{a: null, b: 1}\<close> the key \<open>a\<close> is bound to the
  scalar \<open>null\<close>, and the output has no token \<open>--a=null\<close>. In \<open>{action: {c: 2}, b: 1}\<close> the
  key \<open>c\<close> is bound to a scalar under the namespace \<open>action\<close>, and the output has no
  token \<open>--action.c=2\<close>. In \<open>{flavor: {c: 2}, b: 1}\<close> the output has the object itself at
  the front and no token \<open>--flavor.c=2\<close>.
\<close>

theorem null_key_contributes_nothing:
  "binds [(''a'', JNull), (''b'', JNum ''1'')] [] ''a'' JNull
   \<and> is_scalar JNull
   \<and> ''--'' @ dotted [] @ ''a'' @ ''='' @ ToString JNull = ''--a=null''
   \<and> JStr ''--a=null'' \<notin> set (createFlatChildArgs (JObj [(''a'', JNull), (''b'', JNum ''1'')]))
   \<and> createFlatChildArgs (JObj [(''a'', JNull), (''b'', JNum ''1'')]) = [JStr ''--b=1'']
   \<and> ''--'' @ dotted [''action''] @ ''c'' @ ''='' @ ToString (JNum ''2'') = ''--action.c=2''
   \<and> createFlatChildArgs (JObj [(''action'', JObj [(''c'', JNum ''2'')]), (''b'', JNum ''1'')])
       = [JStr ''--b=1'']
   \<and> ''--'' @ dotted [''flavor''] @ ''c'' @ ''='' @ ToString (JNum ''2'') = ''--flavor.c=2''
   \<and> createFlatChildArgs (JObj [(''flavor'', JObj [(''c'', JNum ''2'')]), (''b'', JNum ''1'')])
       = [JObj [(''c'', JNum ''2'')], JStr ''--b=1'']"
proof -
  have b: "binds [(''a'', JNull), (''b'', JNum ''1'')] [] ''a'' JNull"
    by (rule binds.here) simp
  have r: "createFlatChildArgs (JObj [(''a'', JNull), (''b'', JNum ''1'')]) = [JStr ''--b=1'']"
    "createFlatChildArgs (JObj [(''action'', JObj [(''c'', JNum ''2'')]), (''b'', JNum ''1'')])
       = [JStr ''--b=1'']"
    "createFlatChildArgs (JObj [(''flavor'', JObj [(''c'', JNum ''2'')]), (''b'', JNum ''1'')])
       = [JObj [(''c'', JNum ''2'')], JStr ''--b=1'']"
    by code_simp+
  from b r show ?thesis by (simp add: dotted_def)
qed

end
